theory Spec2Isabelle
  imports Main
begin

section \<open>Python strings\<close>

text \<open>
  A Python \<open>str\<close> is a sequence of Unicode code points, and the regular expressions and
  \<open>str\<close> methods of the exporter work on code points. A string is therefore a list of
  code points; \<open>u\<close> turns an ASCII literal into one.
\<close>

type_synonym pystr = "nat list"

definition u :: "string \<Rightarrow> pystr" where
  "u s = map of_char s"

text \<open>\<open>str.isspace\<close> on one code point; the class \<open>\s\<close> of \<open>re\<close> on a \<open>str\<close> pattern is the same set.\<close>

definition isspace :: "nat \<Rightarrow> bool" where
  "isspace c \<longleftrightarrow>
     (9 \<le> c \<and> c \<le> 13) \<or> (28 \<le> c \<and> c \<le> 32) \<or> c = 133 \<or> c = 160 \<or> c = 5760 \<or>
     (8192 \<le> c \<and> c \<le> 8202) \<or> c = 8232 \<or> c = 8233 \<or> c = 8239 \<or> c = 8287 \<or> c = 12288"

definition rstrip :: "pystr \<Rightarrow> pystr" where
  "rstrip s = rev (dropWhile isspace (rev s))"

definition strip :: "pystr \<Rightarrow> pystr" where
  "strip s = rstrip (dropWhile isspace s)"

text \<open>\<open>sep.join(parts)\<close>.\<close>

fun str_join :: "pystr \<Rightarrow> pystr list \<Rightarrow> pystr" where
  "str_join sep [] = []"
| "str_join sep [x] = x"
| "str_join sep (x # y # ys) = x @ sep @ str_join sep (y # ys)"

text \<open>\<open>s.replace(old, new)\<close> for a one-character \<open>old\<close>.\<close>

definition replace_char :: "nat \<Rightarrow> pystr \<Rightarrow> pystr \<Rightarrow> pystr" where
  "replace_char old new s = concat (map (\<lambda>c. if c = old then new else [c]) s)"

text \<open>
  \<open>re.sub(r"[C]+", "", s)\<close> for a character class \<open>C\<close>: scanning from the left, every
  maximal run of characters of the class is matched and deleted.
\<close>

function re_sub_runs :: "(nat \<Rightarrow> bool) \<Rightarrow> pystr \<Rightarrow> pystr" where
  "re_sub_runs P [] = []"
| "re_sub_runs P (c # cs) =
     (if P c then re_sub_runs P (dropWhile P cs) else c # re_sub_runs P cs)"
  by pat_completeness auto
termination
  by (relation "measure (\<lambda>(P, s). length s)") (auto simp: le_imp_less_Suc length_dropWhile_le)

text \<open>The line boundaries of \<open>str.splitlines\<close>; \<open>\r\n\<close> counts as one boundary.\<close>

definition is_linebreak :: "nat \<Rightarrow> bool" where
  "is_linebreak c \<longleftrightarrow>
     (10 \<le> c \<and> c \<le> 13) \<or> (28 \<le> c \<and> c \<le> 30) \<or> c = 133 \<or> c = 8232 \<or> c = 8233"

fun splitlines_from :: "pystr \<Rightarrow> pystr \<Rightarrow> pystr list" where
  "splitlines_from cur [] = (if cur = [] then [] else [cur])"
| "splitlines_from cur [c] = (if is_linebreak c then [cur] else [cur @ [c]])"
| "splitlines_from cur (c # d # cs) =
     (if c = 13 \<and> d = 10 then cur # splitlines_from [] cs
      else if is_linebreak c then cur # splitlines_from [] (d # cs)
      else splitlines_from (cur @ [c]) (d # cs))"

definition splitlines :: "pystr \<Rightarrow> pystr list" where
  "splitlines s = splitlines_from [] s"

text \<open>\<open>str(n)\<close> for a non-negative integer.\<close>

function str_nat :: "nat \<Rightarrow> pystr" where
  "str_nat n = (if n < 10 then [48 + n] else str_nat (n div 10) @ [48 + n mod 10])"
  by pat_completeness auto
termination
  by (relation "measure id") auto

declare str_nat.simps [simp del]

section \<open>File names and colours\<close>

text \<open>The complement of the class in \<open>_FILENAME_ALLOWED_RE = [^A-Za-z0-9_-]+\<close>.\<close>

definition filename_allowed :: "nat \<Rightarrow> bool" where
  "filename_allowed c \<longleftrightarrow>
     (65 \<le> c \<and> c \<le> 90) \<or> (97 \<le> c \<and> c \<le> 122) \<or> (48 \<le> c \<and> c \<le> 57) \<or> c = 95 \<or> c = 45"

definition make_safe_filename :: "pystr list \<Rightarrow> pystr" where
  "make_safe_filename parts =
     (let base = str_join (u ''_'') parts;
          base = replace_char 32 [] base
      in re_sub_runs (\<lambda>c. \<not> filename_allowed c) base)"

text \<open>The dictionary \<open>refs\<close> of \<open>categorize_color\<close>, in insertion order, which is the order
  in which \<open>refs.items()\<close> yields it.\<close>

definition refs :: "(string \<times> (int \<times> int \<times> int)) list" where
  "refs = [(''yellow'', (255, 212, 0)), (''red'', (230, 0, 0)), (''blue'', (0, 112, 192)),
           (''green'', (0, 176, 80)), (''purple'', (128, 0, 128))]"

definition sqdist :: "int \<times> int \<times> int \<Rightarrow> int \<times> int \<times> int \<Rightarrow> int" where
  "sqdist p q = (case p of (r, g, b) \<Rightarrow> case q of (rr, gg, bb) \<Rightarrow>
      (r - rr)\<^sup>2 + (g - gg)\<^sup>2 + (b - bb)\<^sup>2)"

text \<open>\<open>d < best_d\<close>, where \<open>best_d\<close> starts as \<open>float("inf")\<close> (here \<open>None\<close>) and is an
  integer afterwards.\<close>

fun lt_best :: "int \<Rightarrow> int option \<Rightarrow> bool" where
  "lt_best d None = True"
| "lt_best d (Some b) = (d < b)"

fun categorize_loop ::
  "int \<times> int \<times> int \<Rightarrow> (string \<times> (int \<times> int \<times> int)) list \<Rightarrow>
     string \<times> int option \<Rightarrow> string \<times> int option" where
  "categorize_loop rgb [] best = best"
| "categorize_loop rgb ((k, ref) # rest) (best_key, best_d) =
     (let d = sqdist rgb ref
      in if lt_best d best_d then categorize_loop rgb rest (k, Some d)
         else categorize_loop rgb rest (best_key, best_d))"

definition categorize_color :: "int \<times> int \<times> int \<Rightarrow> string" where
  "categorize_color rgb = fst (categorize_loop rgb refs (''yellow'', None))"

definition COLOR_TITLES :: "(string \<times> pystr) list" where
  "COLOR_TITLES =
     [(''yellow'', [40644, 33394, 65288, 37325, 28857, 65289]),
      (''red'', [32418, 33394, 65288, 38382, 39064, 65289]),
      (''blue'', [34013, 33394, 65288, 26041, 27861, 65289]),
      (''green'', [32511, 33394, 65288, 20855, 20307, 23454, 39564, 32454, 33410, 65289]),
      (''purple'', [32043, 33394, 65288, 35770, 25991, 27010, 25324, 65289])]"

definition order :: "string list" where
  "order = [''yellow'', ''red'', ''blue'', ''green'', ''purple'']"

text \<open>\<open>COLOR_TITLES[k]\<close>; the report only looks up keys of \<open>order\<close>, all of which are
  present, so the \<open>KeyError\<close> of a missing key has no branch here.\<close>

definition title_of :: "string \<Rightarrow> pystr" where
  "title_of k = (case map_of COLOR_TITLES k of Some t \<Rightarrow> t | None \<Rightarrow> [])"

section \<open>Annotations as the PDF library presents them\<close>

text \<open>
  The exporter reads a document through PyMuPDF. A call into the library either raises
  an exception or returns a value.
\<close>

datatype 'a attempt = Raises | Returns 'a

text \<open>
  An annotation is the record of what the library answers to the calls the exporter makes
  on it:
  \<^item> \<open>a_type\<close>: the number \<open>annot.type[0]\<close>, or that reading \<open>annot.type\<close> raises;
  \<^item> \<open>a_colors\<close>: \<open>annot.colors.get("stroke")\<close> and \<open>annot.colors.get("fill")\<close>, or that the
    access raises; each colour component \<open>c\<close> is stored as the integer \<open>int(c * 255)\<close> that
    \<open>rgb_from_annot\<close> computes from it (floating point is not modelled);
  \<^item> \<open>a_vertices\<close>: \<open>annot.vertices\<close>;
  \<^item> \<open>a_clip_text\<close>: for a group of vertices \<open>q\<close>, the outcome of
    \<open>page.get_text("text", clip=fitz.Quad(q).rect)\<close>;
  \<^item> \<open>a_rect_text\<close>: the outcome of \<open>page.get_text("text", clip=annot.rect)\<close>;
  \<^item> \<open>a_content\<close>: the outcome of \<open>(annot.info or {}).get("content")\<close>;
  \<^item> \<open>a_save_ok\<close>: whether \<open>os.makedirs\<close>, \<open>page.get_pixmap\<close> and \<open>pix.save\<close> all succeed
    when the annotation's rectangle is cropped.
  The coordinates of a vertex are only handed back to the library.
\<close>

type_synonym point = "int \<times> int"

record annot =
  a_type :: "int attempt"
  a_colors :: "(int list option \<times> int list option) attempt"
  a_vertices :: "point list option attempt"
  a_clip_text :: "point list \<Rightarrow> pystr attempt"
  a_rect_text :: "pystr attempt"
  a_content :: "pystr option attempt"
  a_save_ok :: bool

text \<open>
  The annotation type numbers of PyMuPDF (the enumeration \<open>pdf_annot_type\<close> of MuPDF), under
  the names the library documents. The source reads the number of strike-out annotations
  under the name \<open>fitz.PDF_ANNOT_STRIKEOUT\<close>, which is not among them; what that attribute
  access gives is a parameter of the model (\<open>strikeout_name\<close> below).
\<close>

definition PDF_ANNOT_TEXT :: int where "PDF_ANNOT_TEXT = 0"
definition PDF_ANNOT_FREE_TEXT :: int where "PDF_ANNOT_FREE_TEXT = 2"
definition PDF_ANNOT_SQUARE :: int where "PDF_ANNOT_SQUARE = 4"
definition PDF_ANNOT_CIRCLE :: int where "PDF_ANNOT_CIRCLE = 5"
definition PDF_ANNOT_HIGHLIGHT :: int where "PDF_ANNOT_HIGHLIGHT = 8"
definition PDF_ANNOT_UNDERLINE :: int where "PDF_ANNOT_UNDERLINE = 9"
definition PDF_ANNOT_STRIKE_OUT :: int where "PDF_ANNOT_STRIKE_OUT = 11"

text \<open>
  \<open>subtype = (annot.type[0] if isinstance(annot.type, tuple) else annot.type) or ""\<close>:
  the number, or the empty string when the number is falsy, that is 0. The empty string
  is equal to no number. The line stands outside the \<open>try\<close>: when the library raises on
  \<open>annot.type\<close>, so does the line.
\<close>

datatype subtype = Code int | EmptyStr

definition subtype_of :: "annot \<Rightarrow> subtype attempt" where
  "subtype_of annot =
     (case a_type annot of
        Raises \<Rightarrow> Raises
      | Returns n \<Rightarrow> Returns (if n = 0 then EmptyStr else Code n))"

text \<open>The exceptions that leave the exporter: its own \<open>FileNotFoundError\<close>, the \<open>ValueError\<close>
  of unpacking a colour, an exception raised by the library (\<open>LibraryError\<close>, whatever its
  class) and one raised by the operating system (\<open>OSError\<close>).\<close>

datatype error = FileNotFoundError pystr | ValueError | LibraryError | OSError

text \<open>
  What \<open>page.first_annot\<close> and \<open>annot.next\<close> give: \<open>None\<close>, an exception, or an annotation,
  which has its own \<open>next\<close>.
\<close>

datatype chain = ChainEnd | ChainRaises | ChainAnnot annot chain

text \<open>
  An opened document: \<open>d_pages\<close> is \<open>Raises\<close> when \<open>len(doc)\<close> raises, and otherwise lists,
  for each index below \<open>len(doc)\<close>, what \<open>doc[page_index]\<close> gives: an exception, or a page,
  which is known by its \<open>first_annot\<close>. \<open>d_close_ok\<close> tells whether \<open>doc.close()\<close> returns.
\<close>

record document =
  d_pages :: "chain attempt list attempt"
  d_close_ok :: bool

text \<open>Truth value of an optional sequence: \<open>None\<close> and the empty sequence are falsy.\<close>

fun truthy_seq :: "'a list option \<Rightarrow> bool" where
  "truthy_seq None = False"
| "truthy_seq (Some xs) = (xs \<noteq> [])"

text \<open>\<open>r, g, b = color\<close> raises \<open>ValueError\<close> unless the colour has exactly three
  components.\<close>

definition rgb_from_annot :: "annot \<Rightarrow> error + (int \<times> int \<times> int)" where
  "rgb_from_annot annot =
     (let color = (case a_colors annot of
                     Raises \<Rightarrow> None
                   | Returns (stroke, fill) \<Rightarrow> if truthy_seq stroke then stroke else fill)
      in if \<not> truthy_seq color then Inr (255, 212, 0)
         else (case color of
                 Some [r, g, b] \<Rightarrow> Inr (r, g, b)
               | _ \<Rightarrow> Inl ValueError))"

definition normalize_highlight_text :: "pystr \<Rightarrow> pystr" where
  "normalize_highlight_text text = re_sub_runs isspace text"

text \<open>The slices \<open>quads[i : i + 4]\<close> for \<open>i\<close> in \<open>range(0, len(quads), 4)\<close>.\<close>

function chunks4 :: "'a list \<Rightarrow> 'a list list" where
  "chunks4 [] = []"
| "chunks4 (x # xs) = take 4 (x # xs) # chunks4 (drop 4 (x # xs))"
  by pat_completeness auto
termination
  by (relation "measure length") auto

fun quad_texts :: "(point list \<Rightarrow> pystr attempt) \<Rightarrow> point list list \<Rightarrow> pystr list attempt" where
  "quad_texts get_text [] = Returns []"
| "quad_texts get_text (q # qs) =
     (case get_text q of
        Raises \<Rightarrow> Raises
      | Returns t \<Rightarrow>
          (case quad_texts get_text qs of
             Raises \<Rightarrow> Raises
           | Returns texts \<Rightarrow> Returns (strip t # texts)))"

definition extract_highlight_text :: "annot \<Rightarrow> pystr attempt" where
  "extract_highlight_text annot =
     (let quads = (case a_vertices annot of
                     Raises \<Rightarrow> []
                   | Returns None \<Rightarrow> []
                   | Returns (Some vs) \<Rightarrow> vs);
          texts = (if quads \<noteq> [] then quad_texts (a_clip_text annot) (chunks4 quads)
                   else (case a_rect_text annot of
                           Raises \<Rightarrow> Raises
                         | Returns t \<Rightarrow> Returns [strip t]))
      in case texts of
           Raises \<Rightarrow> Raises
         | Returns texts \<Rightarrow> Returns (strip (str_join (u '' '') (filter (\<lambda>t. t \<noteq> []) texts))))"

section \<open>The operating system and the library\<close>

text \<open>
  The functions of \<open>os\<close> and \<open>os.path\<close> that the exporter calls depend on the platform and are
  parameters: \<open>splitext_root p\<close> is \<open>os.path.splitext(p)[0]\<close>, and \<open>getcwd\<close> is the outcome of
  \<open>os.getcwd()\<close>, which raises when the working directory no longer exists. \<open>fitz_open\<close>
  gives the opened document or the exception of \<open>fitz.open\<close>. \<open>can_write p\<close> tells whether \<open>os.makedirs\<close>,
  \<open>open(p, "w")\<close> and \<open>f.write\<close> succeed. \<open>strikeout_name\<close> is the outcome of evaluating
  \<open>fitz.PDF_ANNOT_STRIKEOUT\<close>: the value of the attribute, or \<open>Raises\<close> when the module has
  no attribute of that name (an \<open>AttributeError\<close>).
\<close>

record os_env =
  isfile :: "pystr \<Rightarrow> bool"
  splitext_root :: "pystr \<Rightarrow> pystr"
  basename :: "pystr \<Rightarrow> pystr"
  dirname :: "pystr \<Rightarrow> pystr"
  path_join :: "pystr \<Rightarrow> pystr \<Rightarrow> pystr"
  getcwd :: "pystr attempt"
  fitz_open :: "pystr \<Rightarrow> error + document"
  strikeout_name :: "int attempt"
  can_write :: "pystr \<Rightarrow> bool"

text \<open>\<open>save_rect_image\<close> returns the path of the image it saved, or \<open>None\<close> when any of its
  calls raised.\<close>

definition save_rect_image :: "os_env \<Rightarrow> annot \<Rightarrow> pystr \<Rightarrow> pystr \<Rightarrow> int \<Rightarrow> pystr option" where
  "save_rect_image env annot out_dir base_name dpi =
     (if a_save_ok annot then Some (path_join env out_dir (base_name @ u ''.png'')) else None)"

section \<open>Collecting the annotations\<close>

record rect_entry =
  image_path :: "pystr option"
  rect_text :: "pystr option"

text \<open>The three containers of \<open>export_pdf_annotations\<close>, and the images saved so far.\<close>

record collected =
  highlight_groups :: "string \<rightharpoonup> pystr list"
  notes_blocks :: "pystr list"
  rect_groups :: "string \<rightharpoonup> rect_entry list"
  saved_images :: "pystr list"

text \<open>\<open>d[k].append(v)\<close> on a \<open>defaultdict(list)\<close>.\<close>

definition dd_append :: "('k \<rightharpoonup> 'v list) \<Rightarrow> 'k \<Rightarrow> 'v \<Rightarrow> ('k \<rightharpoonup> 'v list)" where
  "dd_append d k v = d(k \<mapsto> (case d k of None \<Rightarrow> [] | Some xs \<Rightarrow> xs) @ [v])"

text \<open>\<open>d.get(k, [])\<close>.\<close>

definition get_list :: "('k \<rightharpoonup> 'v list) \<Rightarrow> 'k \<Rightarrow> 'v list" where
  "get_list d k = (case d k of None \<Rightarrow> [] | Some xs \<Rightarrow> xs)"

text \<open>
  One pass of the \<open>while annot\<close> loop, on the containers and \<open>rect_index\<close>, up to the
  \<open>annot = annot.next\<close> that ends it. The subtype and the colour are read before the \<open>try\<close>,
  so their exceptions leave the function; an exception inside the
  \<open>try\<close> abandons the branch and keeps what it had done (the incremented \<open>rect_index\<close>).
  The last \<open>elif\<close> builds the pair of the two type numbers before it compares, so it is
  abandoned for every annotation that reaches it when the name of the second one raises.
\<close>

definition annot_step ::
  "os_env \<Rightarrow> pystr \<Rightarrow> pystr \<Rightarrow> int \<Rightarrow> nat \<Rightarrow> annot \<Rightarrow> collected \<times> nat \<Rightarrow> error + collected \<times> nat" where
  "annot_step env pdf_path image_dir min_dpi page_index annot s =
     (case s of (st, rect_index) \<Rightarrow>
      case subtype_of annot of
        Raises \<Rightarrow> Inl LibraryError
      | Returns subtype \<Rightarrow>
       (case rgb_from_annot annot of
           Inl e \<Rightarrow> Inl e
         | Inr color \<Rightarrow> Inr (
             if subtype = Code PDF_ANNOT_HIGHLIGHT then
               (case extract_highlight_text annot of
                  Raises \<Rightarrow> (st, rect_index)
                | Returns txt \<Rightarrow>
                    let txt = normalize_highlight_text txt
                    in if txt \<noteq> []
                       then (st\<lparr>highlight_groups :=
                                  dd_append (highlight_groups st) (categorize_color color) txt\<rparr>,
                             rect_index)
                       else (st, rect_index))
             else if subtype = Code PDF_ANNOT_TEXT \<or> subtype = Code PDF_ANNOT_FREE_TEXT then
               (case a_content annot of
                  Raises \<Rightarrow> (st, rect_index)
                | Returns c \<Rightarrow>
                    let content = (case c of None \<Rightarrow> [] | Some s \<Rightarrow> s);
                        content = str_join [10]
                          (map strip (filter (\<lambda>ln. strip ln \<noteq> []) (splitlines content)))
                    in if content \<noteq> []
                       then (st\<lparr>notes_blocks := notes_blocks st @ [content]\<rparr>, rect_index)
                       else (st, rect_index))
             else if subtype = Code PDF_ANNOT_SQUARE \<or> subtype = Code PDF_ANNOT_CIRCLE then
               (let rect_index = rect_index + 1
                in case a_rect_text annot of
                     Raises \<Rightarrow> (st, rect_index)
                   | Returns t \<Rightarrow>
                       let clip_text = (if strip t \<noteq> [] then Some (strip t) else None);
                           base_name = make_safe_filename
                             [splitext_root env (basename env pdf_path),
                              u ''p'' @ str_nat (page_index + 1),
                              u ''rect'' @ str_nat rect_index];
                           img_path = save_rect_image env annot image_dir base_name min_dpi
                       in (st\<lparr>rect_groups :=
                                 dd_append (rect_groups st) (categorize_color color)
                                   \<lparr>image_path = img_path, rect_text = clip_text\<rparr>,
                               saved_images := saved_images st @
                                 (case img_path of None \<Rightarrow> [] | Some p \<Rightarrow> [p])\<rparr>,
                           rect_index))
             else
               (case strikeout_name env of
                  Raises \<Rightarrow> (st, rect_index)
                | Returns strikeout \<Rightarrow>
                    if subtype = Code PDF_ANNOT_UNDERLINE \<or> subtype = Code strikeout then
                      (case extract_highlight_text annot of
                         Raises \<Rightarrow> (st, rect_index)
                       | Returns txt \<Rightarrow>
                           let txt = normalize_highlight_text txt
                           in if txt \<noteq> []
                              then (st\<lparr>highlight_groups :=
                                         dd_append (highlight_groups st) (categorize_color color)
                                           txt\<rparr>,
                                    rect_index)
                              else (st, rect_index))
                    else (st, rect_index)))))"

text \<open>The \<open>while annot\<close> loop from \<open>page.first_annot\<close> along \<open>annot.next\<close>; an exception that
  leaves the function carries the images saved before it.\<close>

fun scan_chain ::
  "os_env \<Rightarrow> pystr \<Rightarrow> pystr \<Rightarrow> int \<Rightarrow> nat \<Rightarrow> chain \<Rightarrow> collected \<times> nat \<Rightarrow>
     (error \<times> pystr list) + collected \<times> nat" where
  "scan_chain env pdf_path image_dir min_dpi page_index ChainEnd s = Inr s"
| "scan_chain env pdf_path image_dir min_dpi page_index ChainRaises s =
     Inl (LibraryError, saved_images (fst s))"
| "scan_chain env pdf_path image_dir min_dpi page_index (ChainAnnot annot next) s =
     (case annot_step env pdf_path image_dir min_dpi page_index annot s of
        Inl e \<Rightarrow> Inl (e, saved_images (fst s))
      | Inr s' \<Rightarrow> scan_chain env pdf_path image_dir min_dpi page_index next s')"

text \<open>The \<open>for page_index in range(len(doc))\<close> loop over what \<open>doc[page_index]\<close> gives;
  \<open>rect_index\<close> starts at 0 on every page.\<close>

fun scan_pages ::
  "os_env \<Rightarrow> pystr \<Rightarrow> pystr \<Rightarrow> int \<Rightarrow> nat \<Rightarrow> chain attempt list \<Rightarrow> collected \<Rightarrow>
     (error \<times> pystr list) + collected" where
  "scan_pages env pdf_path image_dir min_dpi page_index [] st = Inr st"
| "scan_pages env pdf_path image_dir min_dpi page_index (Raises # pages) st =
     Inl (LibraryError, saved_images st)"
| "scan_pages env pdf_path image_dir min_dpi page_index (Returns first_annot # pages) st =
     (case scan_chain env pdf_path image_dir min_dpi page_index first_annot (st, 0) of
        Inl e \<Rightarrow> Inl e
      | Inr (st', rect_index) \<Rightarrow>
          scan_pages env pdf_path image_dir min_dpi (Suc page_index) pages st')"

definition empty_collected :: collected where
  "empty_collected =
     \<lparr>highlight_groups = Map.empty, notes_blocks = [], rect_groups = Map.empty, saved_images = []\<rparr>"

section \<open>Building the Markdown\<close>

text \<open>The loops over \<open>order\<close> append to \<open>lines\<close>; a colour with no items is skipped by
  \<open>continue\<close>.\<close>

fun highlight_loop :: "(string \<rightharpoonup> pystr list) \<Rightarrow> string list \<Rightarrow> pystr list \<Rightarrow> pystr list" where
  "highlight_loop groups [] lines = lines"
| "highlight_loop groups (k # ks) lines =
     (let items = filter (\<lambda>t. t \<noteq> []) (get_list groups k)
      in if items = [] then highlight_loop groups ks lines
         else highlight_loop groups ks
                (lines @ [u ''### '' @ title_of k, []] @ map (\<lambda>txt. u ''- > '' @ txt) items @ [[]]))"

text \<open>The callout header \<open>> [!note]\<close> followed by the two characters of the source.\<close>

definition note_header :: pystr where
  "note_header = u ''> [!note] '' @ [27880, 37322]"

fun notes_loop :: "pystr list \<Rightarrow> pystr list \<Rightarrow> pystr list" where
  "notes_loop [] lines = lines"
| "notes_loop (block # blocks) lines =
     notes_loop blocks
       (lines @ [note_header] @
        map (\<lambda>ln. u ''> '' @ strip ln) (filter (\<lambda>ln. strip ln \<noteq> []) (splitlines block)) @ [[]])"

text \<open>One entry \<open>it\<close> of a rectangle group: the link when \<open>it.get("image_path")\<close> is truthy, then
  an empty line.\<close>

definition rect_item_lines :: "rect_entry \<Rightarrow> pystr list" where
  "rect_item_lines it =
     (case image_path it of
        None \<Rightarrow> []
      | Some p \<Rightarrow> if p \<noteq> [] then [u ''![]('' @ replace_char 92 [47] p @ u '')''] else []) @ [[]]"

fun rect_loop :: "(string \<rightharpoonup> rect_entry list) \<Rightarrow> string list \<Rightarrow> pystr list \<Rightarrow> pystr list" where
  "rect_loop groups [] lines = lines"
| "rect_loop groups (k # ks) lines =
     (let items = get_list groups k
      in if items = [] then rect_loop groups ks lines
         else rect_loop groups ks
                (lines @ [u ''### '' @ title_of k, []] @ concat (map rect_item_lines items)))"

definition build_lines :: "pystr \<Rightarrow> collected \<Rightarrow> pystr list" where
  "build_lines title st =
     (let lines = [u ''# Annotations for '' @ title, []];
          lines = (if list_ex (\<lambda>k. truthy_seq (highlight_groups st k)) order
                   then highlight_loop (highlight_groups st) order (lines @ [u ''## Highlights'', []])
                   else lines);
          lines = (if notes_blocks st \<noteq> []
                   then notes_loop (notes_blocks st) (lines @ [u ''## Notes'', []])
                   else lines);
          lines = (if list_ex (\<lambda>k. truthy_seq (rect_groups st k)) order
                   then rect_loop (rect_groups st) order
                          (lines @ [u ''## Rectangles / Figures'', []])
                   else lines)
      in lines)"

definition build_markdown :: "pystr \<Rightarrow> collected \<Rightarrow> pystr" where
  "build_markdown title st = rstrip (str_join [10] (build_lines title st)) @ [10]"

section \<open>The export\<close>

text \<open>A file the run wrote: a cropped image at a path, or text at a path.\<close>

datatype written = PngFile pystr | TextFile pystr pystr

text \<open>
  \<open>export_pdf_annotations\<close>: what it returns or raises, and the files it wrote, in order.
  Nothing after \<open>fitz.open\<close> is caught except inside the \<open>try\<close> of the loop: an exception of
  \<open>len(doc)\<close>, \<open>doc[page_index]\<close>, \<open>page.first_annot\<close>, \<open>annot.type\<close>, the colour, \<open>annot.next\<close>
  or \<open>doc.close()\<close> leaves the function before the Markdown is written, and leaves behind
  the images saved until then.
\<close>

definition export_pdf_annotations ::
  "os_env \<Rightarrow> pystr \<Rightarrow> pystr option \<Rightarrow> pystr \<Rightarrow> int \<Rightarrow> (error + pystr) \<times> written list" where
  "export_pdf_annotations env pdf_path out_md img_dir min_dpi =
     (if \<not> isfile env pdf_path then (Inl (FileNotFoundError pdf_path), [])
      else
        let out_md = (case out_md of
                        None \<Rightarrow> splitext_root env pdf_path @ u ''.annotations.md''
                      | Some p \<Rightarrow> p)
        in case (if dirname env out_md \<noteq> [] then Returns (dirname env out_md) else getcwd env) of
             Raises \<Rightarrow> (Inl OSError, [])
           | Returns out_dir \<Rightarrow>
              let image_dir = path_join env out_dir img_dir
              in case fitz_open env pdf_path of
                   Inl e \<Rightarrow> (Inl e, [])
                 | Inr doc \<Rightarrow>
                    (case d_pages doc of
                       Raises \<Rightarrow> (Inl LibraryError, [])
                     | Returns pages \<Rightarrow>
                        (case scan_pages env pdf_path image_dir min_dpi 0 pages empty_collected of
                           Inl (e, images) \<Rightarrow> (Inl e, map PngFile images)
                         | Inr st \<Rightarrow>
                             if \<not> d_close_ok doc
                             then (Inl LibraryError, map PngFile (saved_images st))
                             else
                               let title = splitext_root env (basename env pdf_path);
                                   markdown = build_markdown title st
                               in if can_write env out_md
                                  then (Inr out_md,
                                        map PngFile (saved_images st) @
                                        [TextFile out_md markdown])
                                  else (Inl OSError, map PngFile (saved_images st)))))"


section \<open>The report in terms of the document\<close>

text \<open>
  The definitions of this section say what a document contributes to the report; the
  theorems below relate them to the loops above.
\<close>

text \<open>The annotations of a chain up to its end or to the exception that breaks it, those
  of the pages of a document, and whether a chain ends without an exception.\<close>

fun chain_annots :: "chain \<Rightarrow> annot list" where
  "chain_annots ChainEnd = []"
| "chain_annots ChainRaises = []"
| "chain_annots (ChainAnnot annot next) = annot # chain_annots next"

fun chain_ends :: "chain \<Rightarrow> bool" where
  "chain_ends ChainEnd = True"
| "chain_ends ChainRaises = False"
| "chain_ends (ChainAnnot annot next) = chain_ends next"

definition page_annots :: "chain attempt \<Rightarrow> annot list" where
  "page_annots page = (case page of Raises \<Rightarrow> [] | Returns first_annot \<Rightarrow> chain_annots first_annot)"

definition annots_of :: "document \<Rightarrow> annot list list" where
  "annots_of doc = (case d_pages doc of Raises \<Rightarrow> [] | Returns pages \<Rightarrow> map page_annots pages)"

text \<open>The library reads a document without an exception: \<open>len(doc)\<close> returns, every
  \<open>doc[page_index]\<close> returns a page, every chain from \<open>page.first_annot\<close> along \<open>annot.next\<close>
  ends with \<open>None\<close>, every \<open>annot.type\<close> returns and so does \<open>doc.close()\<close>.\<close>

definition page_readable :: "chain attempt \<Rightarrow> bool" where
  "page_readable page \<longleftrightarrow>
     (case page of
        Raises \<Rightarrow> False
      | Returns first_annot \<Rightarrow>
          chain_ends first_annot \<and>
          list_all (\<lambda>annot. a_type annot \<noteq> Raises) (chain_annots first_annot))"

definition readable :: "document \<Rightarrow> bool" where
  "readable doc \<longleftrightarrow>
     (case d_pages doc of Raises \<Rightarrow> False | Returns pages \<Rightarrow> list_all page_readable pages) \<and>
     d_close_ok doc"

text \<open>The annotations that the two text-markup branches of the loop take.\<close>

definition is_markup :: "os_env \<Rightarrow> annot \<Rightarrow> bool" where
  "is_markup env annot \<longleftrightarrow>
     (case a_type annot of
        Raises \<Rightarrow> False
      | Returns n \<Rightarrow>
          n = PDF_ANNOT_HIGHLIGHT \<or>
          (n \<noteq> 0 \<and> n \<noteq> PDF_ANNOT_FREE_TEXT \<and> n \<noteq> PDF_ANNOT_SQUARE \<and> n \<noteq> PDF_ANNOT_CIRCLE \<and>
           (case strikeout_name env of
              Raises \<Rightarrow> False
            | Returns strikeout \<Rightarrow> n = PDF_ANNOT_UNDERLINE \<or> n = strikeout)))"

definition is_shape :: "annot \<Rightarrow> bool" where
  "is_shape annot \<longleftrightarrow>
     a_type annot = Returns PDF_ANNOT_SQUARE \<or> a_type annot = Returns PDF_ANNOT_CIRCLE"

text \<open>The entries filed under the colour key \<open>k\<close>, in their order.\<close>

definition pick :: "string \<Rightarrow> (string \<times> 'a) list \<Rightarrow> 'a list" where
  "pick k xs = map snd (filter (\<lambda>(c, x). c = k) xs)"

text \<open>What a highlight, underline or strike-out annotation adds to the highlights: its
  colour key and its text without whitespace, when that text is not empty and could be
  extracted.\<close>

definition marked :: "os_env \<Rightarrow> annot \<Rightarrow> (string \<times> pystr) list" where
  "marked env annot =
     (case (rgb_from_annot annot, extract_highlight_text annot) of
        (Inr color, Returns t) \<Rightarrow>
          if is_markup env annot \<and> normalize_highlight_text t \<noteq> []
          then [(categorize_color color, normalize_highlight_text t)] else []
      | _ \<Rightarrow> [])"

text \<open>The highlighted texts of colour \<open>k\<close> in a document, pages in ascending order and each
  page in the order of its annotation chain.\<close>

definition texts_of :: "os_env \<Rightarrow> string \<Rightarrow> annot list list \<Rightarrow> pystr list" where
  "texts_of env k doc = pick k (concat (map (marked env) (concat doc)))"

text \<open>The content of a note: its non-blank lines, stripped.\<close>

definition note_text :: "pystr option \<Rightarrow> pystr" where
  "note_text c =
     str_join [10] (map strip (filter (\<lambda>ln. strip ln \<noteq> [])
       (splitlines (case c of None \<Rightarrow> [] | Some s \<Rightarrow> s))))"

definition noted :: "annot \<Rightarrow> pystr list" where
  "noted annot =
     (case a_content annot of
        Returns c \<Rightarrow>
          if a_type annot = Returns PDF_ANNOT_FREE_TEXT \<and> note_text c \<noteq> []
          then [note_text c] else []
      | Raises \<Rightarrow> [])"

text \<open>The file of the \<open>n\<close>-th rectangle or circle of the page with index \<open>page_index\<close>.\<close>

definition image_file :: "os_env \<Rightarrow> pystr \<Rightarrow> pystr \<Rightarrow> nat \<Rightarrow> nat \<Rightarrow> pystr" where
  "image_file env pdf_path image_dir page_index n =
     path_join env image_dir
       (make_safe_filename [splitext_root env (basename env pdf_path),
                            u ''p'' @ str_nat (page_index + 1), u ''rect'' @ str_nat n] @
        u ''.png'')"

text \<open>What a rectangle or circle numbered \<open>n\<close> adds to the rectangle groups, when the text
  under it could be read.\<close>

definition shaped ::
  "os_env \<Rightarrow> pystr \<Rightarrow> pystr \<Rightarrow> nat \<Rightarrow> nat \<times> annot \<Rightarrow> (string \<times> rect_entry) list" where
  "shaped env pdf_path image_dir page_index na =
     (case na of (n, annot) \<Rightarrow>
      case (rgb_from_annot annot, a_rect_text annot) of
        (Inr color, Returns t) \<Rightarrow>
          if is_shape annot
          then [(categorize_color color,
                 \<lparr>image_path = (if a_save_ok annot
                                 then Some (image_file env pdf_path image_dir page_index n)
                                 else None),
                  rect_text = (if strip t \<noteq> [] then Some (strip t) else None)\<rparr>)]
          else []
      | _ \<Rightarrow> [])"

text \<open>Each annotation of a page with the number of rectangles and circles up to and
  including it, counted from \<open>n\<close>.\<close>

fun numbered :: "nat \<Rightarrow> annot list \<Rightarrow> (nat \<times> annot) list" where
  "numbered n [] = []"
| "numbered n (annot # rest) =
     (let n' = (if is_shape annot then n + 1 else n) in (n', annot) # numbered n' rest)"

definition page_shapes ::
  "os_env \<Rightarrow> pystr \<Rightarrow> pystr \<Rightarrow> nat \<Rightarrow> nat \<Rightarrow> annot list \<Rightarrow> (string \<times> rect_entry) list" where
  "page_shapes env pdf_path image_dir page_index n page =
     concat (map (shaped env pdf_path image_dir page_index) (numbered n page))"

definition doc_shapes ::
  "os_env \<Rightarrow> pystr \<Rightarrow> pystr \<Rightarrow> nat \<Rightarrow> annot list list \<Rightarrow> (string \<times> rect_entry) list" where
  "doc_shapes env pdf_path image_dir i pages =
     concat (map (\<lambda>(page_index, page). page_shapes env pdf_path image_dir page_index 0 page)
                 (enumerate i pages))"

definition saved_of :: "(string \<times> rect_entry) list \<Rightarrow> pystr list" where
  "saved_of es = concat (map (\<lambda>(c, e). case image_path e of None \<Rightarrow> [] | Some p \<Rightarrow> [p]) es)"

text \<open>A section with one subsection per colour: the colours that are present, in the order
  of \<open>order\<close>, each with its heading, an empty line and its body; nothing at all when no
  colour is present.\<close>

definition color_section ::
  "pystr \<Rightarrow> (string \<Rightarrow> pystr list) \<Rightarrow> (string \<Rightarrow> bool) \<Rightarrow> pystr list" where
  "color_section heading body present =
     (if list_ex present order
      then [heading, []] @
           concat (map (\<lambda>k. [u ''### '' @ title_of k, []] @ body k) (filter present order))
      else [])"

definition highlights_section :: "(string \<Rightarrow> pystr list) \<Rightarrow> pystr list" where
  "highlights_section texts =
     color_section (u ''## Highlights'')
       (\<lambda>k. map (\<lambda>txt. u ''- > '' @ txt) (texts k) @ [[]]) (\<lambda>k. texts k \<noteq> [])"

definition rects_section :: "(string \<Rightarrow> rect_entry list) \<Rightarrow> pystr list" where
  "rects_section entries =
     color_section (u ''## Rectangles / Figures'')
       (\<lambda>k. concat (map rect_item_lines (entries k))) (\<lambda>k. entries k \<noteq> [])"

text \<open>The callout block of a note.\<close>

definition callout :: "pystr \<Rightarrow> pystr list" where
  "callout content =
     [note_header] @
     map (\<lambda>ln. u ''> '' @ strip ln) (filter (\<lambda>ln. strip ln \<noteq> []) (splitlines content)) @ [[]]"

definition notes_section :: "pystr list \<Rightarrow> pystr list" where
  "notes_section blocks =
     (if blocks = [] then [] else [u ''## Notes'', []] @ concat (map callout blocks))"

text \<open>The path of the Markdown file and the directory of the images (of a run that got
  as far as naming it: \<open>os.getcwd()\<close> returned if it was called).\<close>

definition md_path :: "os_env \<Rightarrow> pystr \<Rightarrow> pystr option \<Rightarrow> pystr" where
  "md_path env pdf_path out_md =
     (case out_md of None \<Rightarrow> splitext_root env pdf_path @ u ''.annotations.md'' | Some p \<Rightarrow> p)"

definition images_dir :: "os_env \<Rightarrow> pystr \<Rightarrow> pystr option \<Rightarrow> pystr \<Rightarrow> pystr" where
  "images_dir env pdf_path out_md img_dir =
     path_join env
       (if dirname env (md_path env pdf_path out_md) \<noteq> []
        then dirname env (md_path env pdf_path out_md)
        else (case getcwd env of Raises \<Rightarrow> [] | Returns d \<Rightarrow> d))
       img_dir"

text \<open>
  What a run observes of the annotation numbered \<open>n\<close> on the page with index \<open>page_index\<close>:
  its subtype; its colour; the text extracted from it, when the run extracts it (\<open>None\<close>
  otherwise); the content of its note, when the run reads it; and the result of saving
  its image, when the run comes to save it, which is what \<open>save_rect_image\<close> returns: the
  path of the saved file or \<open>None\<close>.
\<close>

record observation =
  o_subtype :: "subtype attempt"
  o_color :: "error + int \<times> int \<times> int"
  o_text :: "pystr attempt option"
  o_content :: "pystr option attempt option"
  o_image :: "pystr option option"

definition observe ::
  "os_env \<Rightarrow> pystr \<Rightarrow> pystr \<Rightarrow> int \<Rightarrow> nat \<Rightarrow> nat \<times> annot \<Rightarrow> observation" where
  "observe env pdf_path image_dir min_dpi page_index na =
     (case na of (n, annot) \<Rightarrow>
        \<lparr>o_subtype = subtype_of annot,
         o_color = rgb_from_annot annot,
         o_text = (if is_markup env annot then Some (extract_highlight_text annot) else None),
         o_content = (if a_type annot = Returns PDF_ANNOT_FREE_TEXT
                      then Some (a_content annot) else None),
         o_image = (if is_shape annot \<and> a_rect_text annot \<noteq> Raises
                    then Some (save_rect_image env annot image_dir
                           (make_safe_filename [splitext_root env (basename env pdf_path),
                              u ''p'' @ str_nat (page_index + 1), u ''rect'' @ str_nat n])
                           min_dpi)
                    else None)\<rparr>)"

text \<open>The sequence of the observations of a run, pages in ascending order and each page
  in the order of its chain.\<close>

definition observations ::
  "os_env \<Rightarrow> pystr \<Rightarrow> pystr \<Rightarrow> int \<Rightarrow> annot list list \<Rightarrow> observation list" where
  "observations env pdf_path image_dir min_dpi pages =
     concat (map (\<lambda>(page_index, page).
                    map (observe env pdf_path image_dir min_dpi page_index) (numbered 0 page))
                 (enumerate 0 pages))"

text \<open>What an observation says the annotation adds to the highlights, to the notes and to
  the image links of the rectangles.\<close>

definition seen_marked :: "observation \<Rightarrow> (string \<times> pystr) list" where
  "seen_marked ob =
     (case (o_color ob, o_text ob) of
        (Inr color, Some (Returns t)) \<Rightarrow>
          if normalize_highlight_text t \<noteq> []
          then [(categorize_color color, normalize_highlight_text t)] else []
      | _ \<Rightarrow> [])"

definition seen_noted :: "observation \<Rightarrow> pystr list" where
  "seen_noted ob =
     (case o_content ob of
        Some (Returns c) \<Rightarrow> if note_text c \<noteq> [] then [note_text c] else []
      | _ \<Rightarrow> [])"

definition seen_image :: "observation \<Rightarrow> (string \<times> pystr option) list" where
  "seen_image ob =
     (case (o_color ob, o_image ob) of
        (Inr color, Some saved) \<Rightarrow> [(categorize_color color, saved)]
      | _ \<Rightarrow> [])"

text \<open>The colour keys and image paths of rectangle entries: what the report shows of
  them.\<close>

definition links_of :: "(string \<times> rect_entry) list \<Rightarrow> (string \<times> pystr option) list" where
  "links_of es = map (\<lambda>(c, e). (c, image_path e)) es"

section \<open>A POSIX instance and sample annotations\<close>

text \<open>
  The functions of \<open>posixpath\<close>, for the examples: \<open>basename\<close> and \<open>dirname\<close> split at the last
  slash, \<open>splitext\<close> at the last dot of the last component unless only dots precede it, and
  \<open>join\<close> inserts a slash unless the first part is empty or ends with one.
\<close>

definition posix_basename :: "pystr \<Rightarrow> pystr" where
  "posix_basename p = rev (takeWhile (\<lambda>c. c \<noteq> 47) (rev p))"

definition posix_dirname :: "pystr \<Rightarrow> pystr" where
  "posix_dirname p =
     (let head = rev (dropWhile (\<lambda>c. c \<noteq> 47) (rev p))
      in if head \<noteq> [] \<and> list_ex (\<lambda>c. c \<noteq> 47) head
         then rev (dropWhile (\<lambda>c. c = 47) (rev head)) else head)"

definition posix_splitext_root :: "pystr \<Rightarrow> pystr" where
  "posix_splitext_root p =
     (let name = posix_basename p;
          ext = rev (takeWhile (\<lambda>c. c \<noteq> 46) (rev name));
          stem = take (length name - length ext - 1) name
      in if list_ex (\<lambda>c. c = 46) name \<and> list_ex (\<lambda>c. c \<noteq> 46) stem
         then take (length p - length ext - 1) p else p)"

definition posix_join :: "pystr \<Rightarrow> pystr \<Rightarrow> pystr" where
  "posix_join a b =
     (if b \<noteq> [] \<and> hd b = 47 then b
      else if a = [] \<or> last a = 47 then a @ b
      else a @ [47] @ b)"

text \<open>A machine on which \<open>/docs/paper.pdf\<close> and \<open>/docs/draft.pdf\<close> are the only files, the
  library opens either as \<open>opened\<close>, the working directory is \<open>/home/user\<close>, every path can be
  written and the module \<open>fitz\<close> has no attribute \<open>PDF_ANNOT_STRIKEOUT\<close>: PyMuPDF has the
  number of strike-out annotations under the name \<open>PDF_ANNOT_STRIKE_OUT\<close>.\<close>

definition sample_env :: "(error + document) \<Rightarrow> os_env" where
  "sample_env opened =
     \<lparr>isfile = (\<lambda>p. p = u ''/docs/paper.pdf'' \<or> p = u ''/docs/draft.pdf''),
      splitext_root = posix_splitext_root,
      basename = posix_basename,
      dirname = posix_dirname,
      path_join = posix_join,
      getcwd = Returns (u ''/home/user''),
      fitz_open = (\<lambda>p. opened),
      strikeout_name = Raises,
      can_write = (\<lambda>p. True)\<rparr>"

text \<open>The document whose pages have the given annotations and that the library reads
  without an exception.\<close>

fun chain_of :: "annot list \<Rightarrow> chain" where
  "chain_of [] = ChainEnd"
| "chain_of (annot # rest) = ChainAnnot annot (chain_of rest)"

definition readable_doc :: "annot list list \<Rightarrow> document" where
  "readable_doc pages =
     \<lparr>d_pages = Returns (map (\<lambda>page. Returns (chain_of page)) pages), d_close_ok = True\<rparr>"


text \<open>An annotation of the given type number with no colours, no vertices, no content, the
  given text under its rectangle, and whose rectangle can be cropped.\<close>

definition sample_annot :: "int \<Rightarrow> pystr \<Rightarrow> annot" where
  "sample_annot n t =
     \<lparr>a_type = Returns n, a_colors = Returns (None, None), a_vertices = Returns None,
      a_clip_text = (\<lambda>q. Returns []), a_rect_text = Returns t, a_content = Returns None,
      a_save_ok = True\<rparr>"

text \<open>Two pages: a red highlight and a free-text note on the first, a highlight without
  colour and a blue rectangle on the second. An underline and a strike-out without colour.\<close>

definition sample_highlight :: annot where
  "sample_highlight =
     (sample_annot 8 (u ''key  idea''))\<lparr>a_colors := Returns (Some [230, 0, 0], None)\<rparr>"

definition sample_plain :: annot where
  "sample_plain = sample_annot 8 (u ''see 2'')"

definition sample_underline :: annot where
  "sample_underline = sample_annot 9 (u ''see 2'')"

definition sample_strikeout :: annot where
  "sample_strikeout = sample_annot 11 (u ''old text'')"

definition sample_square :: annot where
  "sample_square =
     (sample_annot 4 (u ''Figure 1''))\<lparr>a_colors := Returns (None, Some [0, 112, 192])\<rparr>"

definition sample_note :: annot where
  "sample_note = (sample_annot 2 [])\<lparr>a_content := Returns (Some (u ''hello''))\<rparr>"

definition sample_doc :: "annot list list" where
  "sample_doc = [[sample_highlight, sample_note], [sample_plain, sample_square]]"

text \<open>The containers after the run on that document.\<close>

definition sample_collected :: collected where
  "sample_collected =
     \<lparr>highlight_groups = [''red'' \<mapsto> [u ''keyidea''], ''yellow'' \<mapsto> [u ''see2'']],
      notes_blocks = [u ''hello''],
      rect_groups = [''blue'' \<mapsto> [\<lparr>image_path = Some (u ''/docs/images/paper_p2_rect1.png''),
                                    rect_text = Some (u ''Figure 1'')\<rparr>]],
      saved_images = [u ''/docs/images/paper_p2_rect1.png'']\<rparr>"

text \<open>A text annotation (a sticky note, type number 0) with the content \<open>hello\<close>, and the
  rectangle of the sample document when its image cannot be saved.\<close>

definition sample_text_note :: annot where
  "sample_text_note = (sample_annot 0 [])\<lparr>a_content := Returns (Some (u ''hello''))\<rparr>"

definition sample_unsaved_square :: annot where
  "sample_unsaved_square = sample_square\<lparr>a_save_ok := False\<rparr>"

text \<open>The highlight of the sample document as another PDF may hold it: the colour is the
  fill colour, the stroke colour is empty, and the list of vertices is empty.\<close>

definition sample_highlight_alt :: annot where
  "sample_highlight_alt =
     sample_highlight\<lparr>a_colors := Returns (Some [], Some [230, 0, 0]),
                      a_vertices := Returns (Some [])\<rparr>"

definition sample_doc_alt :: "annot list list" where
  "sample_doc_alt = [[sample_highlight_alt, sample_note], [sample_plain, sample_square]]"

section \<open>Theorems\<close>

lemma re_sub_runs_filter: "re_sub_runs P s = filter (\<lambda>c. \<not> P c) s"
proof (induction P s rule: re_sub_runs.induct)
  case (1 P)
  show ?case by simp
next
  case (2 P c cs)
  have "filter (\<lambda>c. \<not> P c) (dropWhile P cs) = filter (\<lambda>c. \<not> P c) cs"
    by (induction cs) auto
  with 2 show ?case by simp
qed

subsection \<open>Nearest reference colour\<close>

text \<open>The loop either keeps the pair it started from or ends on a reference point it has
  visited, together with that point's distance.\<close>

lemma categorize_loop_cases:
  "categorize_loop rgb rest (bk, bd) = (k', d') \<Longrightarrow>
     ((k', d') = (bk, bd) \<or> (\<exists>p. (k', p) \<in> set rest \<and> d' = Some (sqdist rgb p)))"
proof (induction rest arbitrary: bk bd)
  case Nil
  then show ?case by simp
next
  case (Cons a rest)
  obtain k p where a: "a = (k, p)" by (cases a)
  show ?case
  proof (cases "lt_best (sqdist rgb p) bd")
    case True
    with Cons.prems a have "categorize_loop rgb rest (k, Some (sqdist rgb p)) = (k', d')"
      by simp
    from Cons.IH [OF this] show ?thesis using a by fastforce
  next
    case False
    with Cons.prems a have "categorize_loop rgb rest (bk, bd) = (k', d')"
      by simp
    from Cons.IH [OF this] show ?thesis by fastforce
  qed
qed

text \<open>The distance it ends on is a lower bound of the distances of all points visited and
  of the distance it started from.\<close>

lemma categorize_loop_le:
  "categorize_loop rgb rest (bk, bd) = (k', d') \<Longrightarrow>
     (\<exists>m. d' = Some m \<and> (\<forall>(k, p) \<in> set rest. m \<le> sqdist rgb p) \<and>
          (\<forall>b. bd = Some b \<longrightarrow> m \<le> b))
     \<or> (d' = None \<and> bd = None \<and> rest = [])"
proof (induction rest arbitrary: bk bd)
  case Nil
  then show ?case by (cases bd) auto
next
  case (Cons a rest)
  obtain k p where a: "a = (k, p)" by (cases a)
  show ?case
  proof (cases "lt_best (sqdist rgb p) bd")
    case True
    with Cons.prems a have "categorize_loop rgb rest (k, Some (sqdist rgb p)) = (k', d')"
      by simp
    from Cons.IH [OF this] True show ?thesis using a by (cases bd) auto
  next
    case False
    with Cons.prems a have *: "categorize_loop rgb rest (bk, bd) = (k', d')"
      by simp
    from False obtain b where b: "bd = Some b" "b \<le> sqdist rgb p" by (cases bd) auto
    from Cons.IH [OF *] b show ?thesis using a by auto
  qed
qed

text \<open>
  C1. For every integer triple, \<open>categorize_color\<close> returns one of the five keys of \<open>order\<close>,
  and the reference point of the returned key is at least as close to the triple, in
  squared Euclidean distance, as each of the five reference points.
\<close>

theorem categorize_color_nearest:
  "categorize_color rgb \<in> set order \<and>
   (\<exists>q. map_of refs (categorize_color rgb) = Some q \<and>
        (\<forall>(k, p) \<in> set refs. sqdist rgb q \<le> sqdist rgb p))"
proof -
  obtain k' d' where res: "categorize_loop rgb refs (''yellow'', None) = (k', d')"
    by (cases "categorize_loop rgb refs (''yellow'', None)")
  then have kc: "categorize_color rgb = k'" by (simp add: categorize_color_def)
  from categorize_loop_le [OF res] obtain m where
    m: "d' = Some m" "\<forall>(k, p) \<in> set refs. m \<le> sqdist rgb p"
    by (auto simp: refs_def)
  from categorize_loop_cases [OF res] m obtain q where
    q: "(k', q) \<in> set refs" "m = sqdist rgb q" by auto
  have "distinct (map fst refs)" by (simp add: refs_def)
  with q have "map_of refs k' = Some q" by simp
  moreover from q have "k' \<in> set order" by (auto simp: refs_def order_def)
  ultimately show ?thesis using m q kc by auto
qed

theorem categorize_color_nearest_witness:
  "categorize_color (200, 30, 40) = ''red'' \<and> (''blue'', (0, 112, 192)) \<in> set refs \<and>
   sqdist (200, 30, 40) (230, 0, 0) \<le> sqdist (200, 30, 40) (0, 112, 192)"
  using categorize_color_nearest [of "(200, 30, 40)"]
  by (simp add: categorize_color_def refs_def sqdist_def)

subsection \<open>Safe file names\<close>

text \<open>
  C10. Whatever the parts, every character of the result of \<open>make_safe_filename\<close> is a
  letter, a digit, an underscore or a hyphen; so the result holds no space (32), no dot
  (46), no slash (47) and no backslash (92).
\<close>

theorem make_safe_filename_chars:
  "(\<forall>c \<in> set (make_safe_filename parts). filename_allowed c) \<and>
   32 \<notin> set (make_safe_filename parts) \<and> 46 \<notin> set (make_safe_filename parts) \<and>
   47 \<notin> set (make_safe_filename parts) \<and> 92 \<notin> set (make_safe_filename parts)"
proof -
  have all: "\<forall>c \<in> set (make_safe_filename parts). filename_allowed c"
    by (simp add: make_safe_filename_def Let_def re_sub_runs_filter)
  moreover have "\<not> filename_allowed 32" "\<not> filename_allowed 46" "\<not> filename_allowed 47"
    "\<not> filename_allowed 92"
    by (simp_all add: filename_allowed_def)
  ultimately show ?thesis by blast
qed

theorem make_safe_filename_chars_witness:
  "make_safe_filename [u ''my paper.v2'', u ''p1'', u ''rect3''] = u ''mypaperv2_p1_rect3'' \<and>
   109 \<in> set (make_safe_filename [u ''my paper.v2'', u ''p1'', u ''rect3'']) \<and>
   filename_allowed 109"
  using make_safe_filename_chars [of "[u ''my paper.v2'', u ''p1'', u ''rect3'']"]
  by (simp add: make_safe_filename_def u_def replace_char_def filename_allowed_def)

subsection \<open>The default colour\<close>

text \<open>
  C9. When the colour access raises, or when neither the stroke nor the fill colour is
  present (each is \<open>None\<close> or empty), \<open>rgb_from_annot\<close> returns (255, 212, 0); that triple is
  at distance 0 from the yellow reference point and \<open>categorize_color\<close> maps it to yellow.
\<close>

theorem rgb_from_annot_default:
  assumes "a_colors annot = Raises \<or>
           (\<exists>stroke fill. a_colors annot = Returns (stroke, fill) \<and>
                           \<not> truthy_seq stroke \<and> \<not> truthy_seq fill)"
  shows "rgb_from_annot annot = Inr (255, 212, 0) \<and>
         categorize_color (255, 212, 0) = ''yellow'' \<and>
         sqdist (255, 212, 0) (255, 212, 0) = 0 \<and>
         map_of refs ''yellow'' = Some (255, 212, 0)"
proof -
  from assms have "rgb_from_annot annot = Inr (255, 212, 0)"
    by (auto simp: rgb_from_annot_def)
  moreover have "categorize_color (255, 212, 0) = ''yellow''"
    by (simp add: categorize_color_def refs_def sqdist_def)
  ultimately show ?thesis by (simp add: sqdist_def refs_def)
qed

theorem rgb_from_annot_default_witness:
  "a_colors (sample_annot 8 []) = Returns (None, None) \<and>
   rgb_from_annot (sample_annot 8 []) = Inr (255, 212, 0) \<and>
   rgb_from_annot ((sample_annot 8 [])\<lparr>a_colors := Raises\<rparr>) = Inr (255, 212, 0) \<and>
   categorize_color (255, 212, 0) = ''yellow''"
  using rgb_from_annot_default [of "sample_annot 8 []"]
    rgb_from_annot_default [of "(sample_annot 8 [])\<lparr>a_colors := Raises\<rparr>"]
  by (simp add: sample_annot_def)

text \<open>The key returned is one of the five of \<open>order\<close>.\<close>

lemma categorize_color_key: "categorize_color rgb \<in> set order"
proof -
  obtain k' d' where res: "categorize_loop rgb refs (''yellow'', None) = (k', d')"
    by (cases "categorize_loop rgb refs (''yellow'', None)")
  from categorize_loop_cases [OF res] have "k' \<in> set order"
    by (auto simp: refs_def order_def)
  with res show ?thesis by (simp add: categorize_color_def)
qed

subsection \<open>The loops of the Markdown assembly\<close>

lemmas annot_codes = PDF_ANNOT_TEXT_def PDF_ANNOT_FREE_TEXT_def PDF_ANNOT_SQUARE_def
  PDF_ANNOT_CIRCLE_def PDF_ANNOT_HIGHLIGHT_def PDF_ANNOT_UNDERLINE_def PDF_ANNOT_STRIKE_OUT_def

lemma highlight_loop_eq:
  "highlight_loop groups ks lines =
     lines @ concat (map (\<lambda>k. [u ''### '' @ title_of k, []] @
                              map (\<lambda>txt. u ''- > '' @ txt)
                                (filter (\<lambda>t. t \<noteq> []) (get_list groups k)) @ [[]])
                         (filter (\<lambda>k. filter (\<lambda>t. t \<noteq> []) (get_list groups k) \<noteq> []) ks))"
  by (induction ks arbitrary: lines) (simp_all add: Let_def)

lemma rect_loop_eq:
  "rect_loop groups ks lines =
     lines @ concat (map (\<lambda>k. [u ''### '' @ title_of k, []] @
                              concat (map rect_item_lines (get_list groups k)))
                         (filter (\<lambda>k. get_list groups k \<noteq> []) ks))"
  by (induction ks arbitrary: lines) (simp_all add: Let_def)

lemma notes_loop_eq: "notes_loop blocks lines = lines @ concat (map callout blocks)"
  by (induction blocks arbitrary: lines) (simp_all add: callout_def)

lemma truthy_get_list: "truthy_seq (d k) \<longleftrightarrow> get_list d k \<noteq> []"
  by (cases "d k") (simp_all add: get_list_def)

text \<open>When no group holds an empty text, the lines are the title, the highlights, the
  notes and the rectangles.\<close>

lemma build_lines_sections:
  assumes "\<And>k t. t \<in> set (get_list (highlight_groups st) k) \<Longrightarrow> t \<noteq> []"
  shows "build_lines title st =
     [u ''# Annotations for '' @ title, []] @
     highlights_section (get_list (highlight_groups st)) @
     notes_section (notes_blocks st) @
     rects_section (get_list (rect_groups st))"
proof -
  have f: "filter (\<lambda>t. t \<noteq> []) (get_list (highlight_groups st) k) =
           get_list (highlight_groups st) k" for k
    using assms by (simp add: filter_id_conv)
  show ?thesis
    by (simp add: build_lines_def Let_def color_section_def notes_section_def highlight_loop_eq
        rect_loop_eq notes_loop_eq truthy_get_list f highlights_section_def rects_section_def)
qed

text \<open>The subsection of a colour that is present is a segment of its section.\<close>

lemma color_section_segment:
  assumes "k \<in> set order" "present k"
  shows "\<exists>pre post. color_section heading body present =
           pre @ [u ''### '' @ title_of k, []] @ body k @ post"
proof -
  from assms have "k \<in> set (filter present order)" by simp
  then obtain ks1 ks2 where ks: "filter present order = ks1 @ k # ks2"
    by (meson split_list)
  from assms have ex: "list_ex present order" by (auto simp: list_ex_iff)
  let ?f = "\<lambda>k. [u ''### '' @ title_of k, []] @ body k"
  have "color_section heading body present =
          ([heading, []] @ concat (map ?f ks1)) @ [u ''### '' @ title_of k, []] @ body k @
          concat (map ?f ks2)"
    using ex by (simp add: color_section_def ks)
  then show ?thesis by blast
qed

subsection \<open>The loops over the annotations\<close>

lemma pick_append [simp]: "pick k (xs @ ys) = pick k xs @ pick k ys"
  by (simp add: pick_def)

lemma pick_Nil [simp]: "pick k [] = []"
  by (simp add: pick_def)

lemma saved_of_append [simp]: "saved_of (xs @ ys) = saved_of xs @ saved_of ys"
  by (simp add: saved_of_def)

lemma saved_of_Nil [simp]: "saved_of [] = []"
  by (simp add: saved_of_def)

lemma get_list_dd_append:
  "get_list (dd_append d c v) k = get_list d k @ (if c = k then [v] else [])"
  by (auto simp: get_list_def dd_append_def split: option.splits)

lemma annot_step_highlights:
  assumes "annot_step env pdf_path image_dir min_dpi page_index annot (st, n) = Inr (st', n')"
  shows "get_list (highlight_groups st') k = get_list (highlight_groups st) k @ pick k (marked env annot)"
  using assms
  by (auto simp: annot_step_def marked_def is_markup_def subtype_of_def annot_codes Let_def
      get_list_dd_append pick_def split: sum.splits attempt.splits if_splits)

lemma annot_step_notes:
  assumes "annot_step env pdf_path image_dir min_dpi page_index annot (st, n) = Inr (st', n')"
  shows "notes_blocks st' = notes_blocks st @ noted annot"
  using assms
  by (auto simp: annot_step_def noted_def note_text_def subtype_of_def annot_codes Let_def
      split: sum.splits attempt.splits if_splits)

lemma annot_step_rects:
  assumes "annot_step env pdf_path image_dir min_dpi page_index annot (st, n) = Inr (st', n')"
  shows "n' = (if is_shape annot then n + 1 else n) \<and>
         get_list (rect_groups st') k =
           get_list (rect_groups st) k @
           pick k (shaped env pdf_path image_dir page_index (n', annot))"
  using assms
  by (auto simp: annot_step_def shaped_def is_shape_def subtype_of_def annot_codes Let_def
      get_list_dd_append pick_def save_rect_image_def image_file_def
      split: sum.splits attempt.splits if_splits)

lemma annot_step_saved:
  assumes "annot_step env pdf_path image_dir min_dpi page_index annot (st, n) = Inr (st', n')"
  shows "saved_images st' =
           saved_images st @ saved_of (shaped env pdf_path image_dir page_index (n', annot))"
  using assms
  by (auto simp: annot_step_def shaped_def is_shape_def subtype_of_def annot_codes Let_def
      save_rect_image_def image_file_def saved_of_def
      split: sum.splits attempt.splits if_splits)

text \<open>A pass of the loop goes through exactly when the type and the colour can be read.\<close>

lemma annot_step_returns:
  "(\<exists>s'. annot_step env pdf_path image_dir min_dpi page_index annot s = Inr s') \<longleftrightarrow>
   a_type annot \<noteq> Raises \<and> (\<exists>c. rgb_from_annot annot = Inr c)"
  by (cases s) (auto simp: annot_step_def subtype_of_def split: sum.splits attempt.splits)

lemma scan_chain_Cons:
  assumes "scan_chain env pdf_path image_dir min_dpi page_index (ChainAnnot a next) (st, n) =
             Inr (st', n')"
  obtains st1 n1 where
    "annot_step env pdf_path image_dir min_dpi page_index a (st, n) = Inr (st1, n1)"
    "scan_chain env pdf_path image_dir min_dpi page_index next (st1, n1) = Inr (st', n')"
  using assms by (auto split: sum.splits)

lemma scan_chain_highlights:
  "scan_chain env pdf_path image_dir min_dpi page_index first_annot (st, n) = Inr (st', n') \<Longrightarrow>
   get_list (highlight_groups st') k =
     get_list (highlight_groups st) k @
     pick k (concat (map (marked env) (chain_annots first_annot)))"
proof (induction first_annot arbitrary: st n)
  case ChainEnd
  then show ?case by simp
next
  case ChainRaises
  then show ?case by simp
next
  case (ChainAnnot a "next")
  from ChainAnnot.prems obtain st1 n1 where
    s1: "annot_step env pdf_path image_dir min_dpi page_index a (st, n) = Inr (st1, n1)" and
    s2: "scan_chain env pdf_path image_dir min_dpi page_index next (st1, n1) = Inr (st', n')"
    by (rule scan_chain_Cons)
  from ChainAnnot.IH [OF s2] annot_step_highlights [OF s1] show ?case by simp
qed

lemma scan_chain_notes:
  "scan_chain env pdf_path image_dir min_dpi page_index first_annot (st, n) = Inr (st', n') \<Longrightarrow>
   notes_blocks st' = notes_blocks st @ concat (map noted (chain_annots first_annot))"
proof (induction first_annot arbitrary: st n)
  case ChainEnd
  then show ?case by simp
next
  case ChainRaises
  then show ?case by simp
next
  case (ChainAnnot a "next")
  from ChainAnnot.prems obtain st1 n1 where
    s1: "annot_step env pdf_path image_dir min_dpi page_index a (st, n) = Inr (st1, n1)" and
    s2: "scan_chain env pdf_path image_dir min_dpi page_index next (st1, n1) = Inr (st', n')"
    by (rule scan_chain_Cons)
  from ChainAnnot.IH [OF s2] annot_step_notes [OF s1] show ?case by simp
qed

lemma scan_chain_rects:
  "scan_chain env pdf_path image_dir min_dpi page_index first_annot (st, n) = Inr (st', n') \<Longrightarrow>
   get_list (rect_groups st') k =
     get_list (rect_groups st) k @
     pick k (page_shapes env pdf_path image_dir page_index n (chain_annots first_annot)) \<and>
   saved_images st' =
     saved_images st @
     saved_of (page_shapes env pdf_path image_dir page_index n (chain_annots first_annot))"
proof (induction first_annot arbitrary: st n)
  case ChainEnd
  then show ?case by (simp add: page_shapes_def)
next
  case ChainRaises
  then show ?case by simp
next
  case (ChainAnnot a "next")
  from ChainAnnot.prems obtain st1 n1 where
    s1: "annot_step env pdf_path image_dir min_dpi page_index a (st, n) = Inr (st1, n1)" and
    s2: "scan_chain env pdf_path image_dir min_dpi page_index next (st1, n1) = Inr (st', n')"
    by (rule scan_chain_Cons)
  from annot_step_rects [OF s1] have n1: "n1 = (if is_shape a then n + 1 else n)" by simp
  from ChainAnnot.IH [OF s2] annot_step_rects [OF s1, of k] annot_step_saved [OF s1] n1
  show ?case
    by (simp add: page_shapes_def Let_def)
qed

lemma scan_pages_Cons:
  assumes "scan_pages env pdf_path image_dir min_dpi i (page # pages) st = Inr st'"
  obtains first_annot st1 n1 where
    "page = Returns first_annot"
    "scan_chain env pdf_path image_dir min_dpi i first_annot (st, 0) = Inr (st1, n1)"
    "scan_pages env pdf_path image_dir min_dpi (Suc i) pages st1 = Inr st'"
  using assms by (cases page) (auto split: sum.splits)

lemma scan_pages_highlights:
  "scan_pages env pdf_path image_dir min_dpi i pages st = Inr st' \<Longrightarrow>
   get_list (highlight_groups st') k =
     get_list (highlight_groups st) k @ texts_of env k (map page_annots pages)"
proof (induction pages arbitrary: st i)
  case Nil
  then show ?case by (simp add: texts_of_def)
next
  case (Cons page pages)
  from Cons.prems obtain first_annot st1 n1 where
    p: "page = Returns first_annot" and
    s1: "scan_chain env pdf_path image_dir min_dpi i first_annot (st, 0) = Inr (st1, n1)" and
    s2: "scan_pages env pdf_path image_dir min_dpi (Suc i) pages st1 = Inr st'"
    by (rule scan_pages_Cons)
  from Cons.IH [OF s2] scan_chain_highlights [OF s1] p show ?case
    by (simp add: texts_of_def page_annots_def)
qed

lemma scan_pages_notes:
  "scan_pages env pdf_path image_dir min_dpi i pages st = Inr st' \<Longrightarrow>
   notes_blocks st' = notes_blocks st @ concat (map noted (concat (map page_annots pages)))"
proof (induction pages arbitrary: st i)
  case Nil
  then show ?case by simp
next
  case (Cons page pages)
  from Cons.prems obtain first_annot st1 n1 where
    p: "page = Returns first_annot" and
    s1: "scan_chain env pdf_path image_dir min_dpi i first_annot (st, 0) = Inr (st1, n1)" and
    s2: "scan_pages env pdf_path image_dir min_dpi (Suc i) pages st1 = Inr st'"
    by (rule scan_pages_Cons)
  from Cons.IH [OF s2] scan_chain_notes [OF s1] p show ?case
    by (simp add: page_annots_def)
qed

lemma scan_pages_rects:
  "scan_pages env pdf_path image_dir min_dpi i pages st = Inr st' \<Longrightarrow>
   get_list (rect_groups st') k =
     get_list (rect_groups st) k @
     pick k (doc_shapes env pdf_path image_dir i (map page_annots pages)) \<and>
   saved_images st' =
     saved_images st @ saved_of (doc_shapes env pdf_path image_dir i (map page_annots pages))"
proof (induction pages arbitrary: st i)
  case Nil
  then show ?case by (simp add: doc_shapes_def)
next
  case (Cons page pages)
  from Cons.prems obtain first_annot st1 n1 where
    p: "page = Returns first_annot" and
    s1: "scan_chain env pdf_path image_dir min_dpi i first_annot (st, 0) = Inr (st1, n1)" and
    s2: "scan_pages env pdf_path image_dir min_dpi (Suc i) pages st1 = Inr st'"
    by (rule scan_pages_Cons)
  from Cons.IH [OF s2] scan_chain_rects [OF s1] p show ?case
    by (simp add: doc_shapes_def page_annots_def)
qed

text \<open>The loops return exactly when the chains end, and every type and colour can be
  read.\<close>

lemma scan_chain_returns:
  "(\<exists>s'. scan_chain env pdf_path image_dir min_dpi page_index first_annot s = Inr s') \<longleftrightarrow>
   chain_ends first_annot \<and>
   (\<forall>a \<in> set (chain_annots first_annot). a_type a \<noteq> Raises \<and> (\<exists>c. rgb_from_annot a = Inr c))"
proof (induction first_annot arbitrary: s)
  case ChainEnd
  then show ?case by simp
next
  case ChainRaises
  then show ?case by simp
next
  case (ChainAnnot a "next")
  show ?case
  proof (cases "annot_step env pdf_path image_dir min_dpi page_index a s")
    case (Inl e)
    with annot_step_returns [of env pdf_path image_dir min_dpi page_index a s] show ?thesis
      by auto
  next
    case (Inr s1)
    with annot_step_returns [of env pdf_path image_dir min_dpi page_index a s]
    have "a_type a \<noteq> Raises \<and> (\<exists>c. rgb_from_annot a = Inr c)" by auto
    with Inr ChainAnnot.IH [of s1] show ?thesis by simp
  qed
qed

lemma scan_pages_returns:
  "(\<exists>st'. scan_pages env pdf_path image_dir min_dpi i pages st = Inr st') \<longleftrightarrow>
   list_all page_readable pages \<and>
   (\<forall>a \<in> set (concat (map page_annots pages)). \<exists>c. rgb_from_annot a = Inr c)"
proof (induction pages arbitrary: st i)
  case Nil
  then show ?case by simp
next
  case (Cons page pages)
  show ?case
  proof (cases page)
    case Raises
    then show ?thesis by (simp add: page_readable_def)
  next
    case (Returns first_annot)
    note ret = scan_chain_returns [of env pdf_path image_dir min_dpi i first_annot "(st, 0)"]
    show ?thesis
    proof (cases "scan_chain env pdf_path image_dir min_dpi i first_annot (st, 0)")
      case (Inl e)
      with ret Returns show ?thesis
        by (auto simp: page_readable_def page_annots_def list_all_iff)
    next
      case (Inr s1)
      obtain st1 n1 where s1: "s1 = (st1, n1)" by (cases s1)
      from Inr ret
      have page: "page_readable page \<and> (\<forall>a \<in> set (page_annots page). \<exists>c. rgb_from_annot a = Inr c)"
        using Returns by (auto simp: page_readable_def page_annots_def list_all_iff)
      have "(\<exists>st'. scan_pages env pdf_path image_dir min_dpi i (page # pages) st = Inr st') \<longleftrightarrow>
            (\<exists>st'. scan_pages env pdf_path image_dir min_dpi (Suc i) pages st1 = Inr st')"
        using Inr s1 Returns by simp
      also have "\<dots> \<longleftrightarrow> list_all page_readable pages \<and>
          (\<forall>a \<in> set (concat (map page_annots pages)). \<exists>c. rgb_from_annot a = Inr c)"
        by (rule Cons.IH)
      also have "\<dots> \<longleftrightarrow> list_all page_readable (page # pages) \<and>
          (\<forall>a \<in> set (concat (map page_annots (page # pages))). \<exists>c. rgb_from_annot a = Inr c)"
        using page by (auto simp: ball_Un)
      finally show ?thesis .
    qed
  qed
qed

text \<open>A text that is filed is not empty.\<close>

lemma texts_of_nonempty: "t \<in> set (texts_of env k doc) \<Longrightarrow> t \<noteq> []"
  by (auto simp: texts_of_def pick_def marked_def split: sum.splits attempt.splits if_splits)

lemma get_list_empty [simp]: "get_list Map.empty k = []"
  by (simp add: get_list_def)

text \<open>The containers at the end of a run that returns.\<close>

lemma scan_pages_run:
  assumes "scan_pages env pdf_path image_dir min_dpi 0 pages empty_collected = Inr st"
  shows "get_list (highlight_groups st) = (\<lambda>k. texts_of env k (map page_annots pages))"
    and "notes_blocks st = concat (map noted (concat (map page_annots pages)))"
    and "get_list (rect_groups st) =
           (\<lambda>k. pick k (doc_shapes env pdf_path image_dir 0 (map page_annots pages)))"
    and "saved_images st = saved_of (doc_shapes env pdf_path image_dir 0 (map page_annots pages))"
  using scan_pages_highlights [OF assms] scan_pages_notes [OF assms] scan_pages_rects [OF assms]
  by (auto simp: empty_collected_def)

lemma run_lines:
  assumes "scan_pages env pdf_path image_dir min_dpi 0 pages empty_collected = Inr st"
  shows "build_lines title st =
     [u ''# Annotations for '' @ title, []] @
     highlights_section (\<lambda>k. texts_of env k (map page_annots pages)) @
     notes_section (concat (map noted (concat (map page_annots pages)))) @
     rects_section (\<lambda>k. pick k (doc_shapes env pdf_path image_dir 0 (map page_annots pages)))"
proof -
  have ne: "t \<noteq> []" if "t \<in> set (get_list (highlight_groups st) k)" for k t
    using that scan_pages_run(1) [OF assms] texts_of_nonempty [of t env k "map page_annots pages"]
    by simp
  have "build_lines title st =
     [u ''# Annotations for '' @ title, []] @
     highlights_section (get_list (highlight_groups st)) @
     notes_section (notes_blocks st) @
     rects_section (get_list (rect_groups st))"
    by (rule build_lines_sections) (rule ne)
  with scan_pages_run [OF assms] show ?thesis by simp
qed

subsection \<open>The export\<close>

text \<open>The export with the two paths named.\<close>

lemma export_eq:
  "export_pdf_annotations env pdf_path out_md img_dir min_dpi =
     (if \<not> isfile env pdf_path then (Inl (FileNotFoundError pdf_path), [])
      else if dirname env (md_path env pdf_path out_md) = [] \<and> getcwd env = Raises
      then (Inl OSError, [])
      else case fitz_open env pdf_path of
        Inl e \<Rightarrow> (Inl e, [])
      | Inr doc \<Rightarrow>
         (case d_pages doc of
            Raises \<Rightarrow> (Inl LibraryError, [])
          | Returns pages \<Rightarrow>
             (case scan_pages env pdf_path (images_dir env pdf_path out_md img_dir) min_dpi 0
                     pages empty_collected of
                Inl (e, images) \<Rightarrow> (Inl e, map PngFile images)
              | Inr st \<Rightarrow>
                  if \<not> d_close_ok doc then (Inl LibraryError, map PngFile (saved_images st))
                  else if can_write env (md_path env pdf_path out_md)
                  then (Inr (md_path env pdf_path out_md),
                        map PngFile (saved_images st) @
                        [TextFile (md_path env pdf_path out_md)
                           (build_markdown (splitext_root env (basename env pdf_path)) st)])
                  else (Inl OSError, map PngFile (saved_images st)))))"
  unfolding export_pdf_annotations_def Let_def md_path_def images_dir_def
  by (auto split: sum.splits attempt.splits)


lemma export_unopened:
  "isfile env pdf_path \<Longrightarrow> fitz_open env pdf_path = Inl e \<Longrightarrow>
   \<exists>e'. export_pdf_annotations env pdf_path out_md img_dir min_dpi = (Inl e', [])"
  by (simp add: export_eq)

lemma export_returns:
  assumes "isfile env pdf_path"
    "dirname env (md_path env pdf_path out_md) = [] \<longrightarrow> getcwd env \<noteq> Raises"
    "fitz_open env pdf_path = Inr doc" "d_pages doc = Returns pages"
    "scan_pages env pdf_path (images_dir env pdf_path out_md img_dir) min_dpi 0 pages
       empty_collected = Inr st"
    "d_close_ok doc" "can_write env (md_path env pdf_path out_md)"
  shows "export_pdf_annotations env pdf_path out_md img_dir min_dpi =
     (Inr (md_path env pdf_path out_md),
      map PngFile (saved_images st) @
      [TextFile (md_path env pdf_path out_md)
         (build_markdown (splitext_root env (basename env pdf_path)) st)])"
  using assms by (auto simp: export_eq)

text \<open>Whatever the export returns, it returned from the last line.\<close>

lemma export_returned:
  assumes "export_pdf_annotations env pdf_path out_md img_dir min_dpi = (Inr out, written)"
  shows "isfile env pdf_path \<and> can_write env (md_path env pdf_path out_md) \<and>
         (dirname env (md_path env pdf_path out_md) = [] \<longrightarrow> getcwd env \<noteq> Raises) \<and>
         out = md_path env pdf_path out_md \<and>
         (\<exists>doc pages st. fitz_open env pdf_path = Inr doc \<and> d_pages doc = Returns pages \<and>
            d_close_ok doc \<and>
            scan_pages env pdf_path (images_dir env pdf_path out_md img_dir) min_dpi 0 pages
              empty_collected = Inr st \<and>
            written = map PngFile (saved_images st) @
              [TextFile out (build_markdown (splitext_root env (basename env pdf_path)) st)])"
  using assms
  by (auto simp: export_eq split: if_splits sum.splits prod.splits attempt.splits)

lemma annots_of_pages: "d_pages doc = Returns pages \<Longrightarrow> annots_of doc = map page_annots pages"
  by (simp add: annots_of_def)

text \<open>The files of a run that returns, in terms of the annotations of the document.\<close>

lemma export_report:
  assumes "export_pdf_annotations env pdf_path out_md img_dir min_dpi = (Inr out, written)"
    and "fitz_open env pdf_path = Inr doc"
  shows "out = md_path env pdf_path out_md"
    and "written =
      map PngFile
        (saved_of (doc_shapes env pdf_path (images_dir env pdf_path out_md img_dir) 0
                     (annots_of doc))) @
      [TextFile out
         (rstrip (str_join [10]
            ([u ''# Annotations for '' @ splitext_root env (basename env pdf_path), []] @
             highlights_section (\<lambda>k. texts_of env k (annots_of doc)) @
             notes_section (concat (map noted (concat (annots_of doc)))) @
             rects_section
               (\<lambda>k. pick k (doc_shapes env pdf_path (images_dir env pdf_path out_md img_dir) 0
                              (annots_of doc))))) @ [10])]"
    and "readable doc"
    and "\<forall>a \<in> set (concat (annots_of doc)). \<exists>c. rgb_from_annot a = Inr c"
proof -
  from export_returned [OF assms(1)] assms(2) obtain pages st where
    out: "out = md_path env pdf_path out_md" and
    pages: "d_pages doc = Returns pages" and
    closed: "d_close_ok doc" and
    scan: "scan_pages env pdf_path (images_dir env pdf_path out_md img_dir) min_dpi 0 pages
             empty_collected = Inr st" and
    written: "written = map PngFile (saved_images st) @
      [TextFile out (build_markdown (splitext_root env (basename env pdf_path)) st)]"
    by auto
  show "out = md_path env pdf_path out_md" by (rule out)
  show "written =
      map PngFile
        (saved_of (doc_shapes env pdf_path (images_dir env pdf_path out_md img_dir) 0
                     (annots_of doc))) @
      [TextFile out
         (rstrip (str_join [10]
            ([u ''# Annotations for '' @ splitext_root env (basename env pdf_path), []] @
             highlights_section (\<lambda>k. texts_of env k (annots_of doc)) @
             notes_section (concat (map noted (concat (annots_of doc)))) @
             rects_section
               (\<lambda>k. pick k (doc_shapes env pdf_path (images_dir env pdf_path out_md img_dir) 0
                              (annots_of doc))))) @ [10])]"
    unfolding written build_markdown_def run_lines [OF scan] scan_pages_run(4) [OF scan]
      annots_of_pages [OF pages]
    by (rule refl)
  from scan scan_pages_returns [of env pdf_path "images_dir env pdf_path out_md img_dir" min_dpi 0
      pages empty_collected]
  have r: "list_all page_readable pages \<and>
      (\<forall>a \<in> set (concat (map page_annots pages)). \<exists>c. rgb_from_annot a = Inr c)"
    by blast
  from r pages closed show "readable doc" by (simp add: readable_def)
  from r show "\<forall>a \<in> set (concat (annots_of doc)). \<exists>c. rgb_from_annot a = Inr c"
    by (simp add: annots_of_pages [OF pages])
qed

text \<open>The export returns exactly when the file exists, the directory of the output is
  known, the library opens and reads the document without an exception, every colour is
  absent or has three components, and the Markdown file can be written.\<close>

lemma export_returns_iff:
  "(\<exists>out written. export_pdf_annotations env pdf_path out_md img_dir min_dpi = (Inr out, written)) \<longleftrightarrow>
   isfile env pdf_path \<and>
   (dirname env (md_path env pdf_path out_md) = [] \<longrightarrow> getcwd env \<noteq> Raises) \<and>
   (\<exists>doc. fitz_open env pdf_path = Inr doc \<and> readable doc \<and>
      (\<forall>a \<in> set (concat (annots_of doc)). \<exists>c. rgb_from_annot a = Inr c)) \<and>
   can_write env (md_path env pdf_path out_md)"
proof
  assume "\<exists>out written. export_pdf_annotations env pdf_path out_md img_dir min_dpi = (Inr out, written)"
  then obtain out written where
    e: "export_pdf_annotations env pdf_path out_md img_dir min_dpi = (Inr out, written)"
    by blast
  from export_returned [OF e] obtain doc where d: "fitz_open env pdf_path = Inr doc" by blast
  from export_returned [OF e] export_report(3,4) [OF e d] d
  show "isfile env pdf_path \<and>
   (dirname env (md_path env pdf_path out_md) = [] \<longrightarrow> getcwd env \<noteq> Raises) \<and>
   (\<exists>doc. fitz_open env pdf_path = Inr doc \<and> readable doc \<and>
      (\<forall>a \<in> set (concat (annots_of doc)). \<exists>c. rgb_from_annot a = Inr c)) \<and>
   can_write env (md_path env pdf_path out_md)"
    by blast
next
  assume a: "isfile env pdf_path \<and>
   (dirname env (md_path env pdf_path out_md) = [] \<longrightarrow> getcwd env \<noteq> Raises) \<and>
   (\<exists>doc. fitz_open env pdf_path = Inr doc \<and> readable doc \<and>
      (\<forall>a \<in> set (concat (annots_of doc)). \<exists>c. rgb_from_annot a = Inr c)) \<and>
   can_write env (md_path env pdf_path out_md)"
  then obtain doc where d: "fitz_open env pdf_path = Inr doc" and r: "readable doc" and
    c: "\<forall>a \<in> set (concat (annots_of doc)). \<exists>c. rgb_from_annot a = Inr c"
    by blast
  from r obtain pages where p: "d_pages doc = Returns pages" and
    pr: "list_all page_readable pages" and cl: "d_close_ok doc"
    by (auto simp: readable_def split: attempt.splits)
  from c have c': "\<forall>a \<in> set (concat (map page_annots pages)). \<exists>c. rgb_from_annot a = Inr c"
    by (simp add: annots_of_pages [OF p])
  from pr c' scan_pages_returns [of env pdf_path "images_dir env pdf_path out_md img_dir" min_dpi 0
      pages empty_collected]
  obtain st where "scan_pages env pdf_path (images_dir env pdf_path out_md img_dir) min_dpi 0
      pages empty_collected = Inr st"
    by blast
  from export_returns [OF _ _ d p this cl] a
  show "\<exists>out written. export_pdf_annotations env pdf_path out_md img_dir min_dpi = (Inr out, written)"
    by blast
qed

subsection \<open>The sample run\<close>

lemmas sample_defs = sample_highlight_def sample_plain_def sample_underline_def
  sample_strikeout_def sample_square_def sample_note_def sample_annot_def sample_env_def
lemmas posix_defs = posix_splitext_root_def posix_basename_def posix_dirname_def posix_join_def
lemmas string_defs = rstrip_def strip_def isspace_def is_linebreak_def splitlines_def u_def
  replace_char_def filename_allowed_def

lemma chain_annots_of [simp]: "chain_annots (chain_of page) = page"
  by (induction page) simp_all

lemma chain_ends_of [simp]: "chain_ends (chain_of page)"
  by (induction page) simp_all

lemma annots_of_readable_doc [simp]: "annots_of (readable_doc pages) = pages"
  by (simp add: annots_of_def readable_doc_def page_annots_def comp_def)

lemma pages_of_readable_doc:
  "d_pages (readable_doc pages) = Returns (map (\<lambda>page. Returns (chain_of page)) pages)"
  "d_close_ok (readable_doc pages)"
  by (simp_all add: readable_doc_def)


lemma sample_colors:
  "categorize_color (230, 0, 0) = ''red''" "categorize_color (255, 212, 0) = ''yellow''"
  "categorize_color (0, 112, 192) = ''blue''"
  by (simp_all add: categorize_color_def refs_def sqdist_def)

lemma str_nat_small:
  "str_nat 1 = [49]" "str_nat 2 = [50]" "str_nat (Suc 0) = [49]" "str_nat (Suc (Suc 0)) = [50]"
  by (simp_all add: str_nat.simps [of 1] str_nat.simps [of 2] str_nat.simps [of "Suc 0"]
      str_nat.simps [of "Suc (Suc 0)"])

lemma sample_title:
  "posix_splitext_root (posix_basename (u ''/docs/paper.pdf'')) = u ''paper''"
  "posix_splitext_root (posix_basename (u ''/docs/draft.pdf'')) = u ''draft''"
  by (simp_all add: posix_defs u_def)

lemma sample_name:
  "make_safe_filename [u ''paper'', u ''p'' @ [50], u ''rect'' @ [49]] = u ''paper_p2_rect1''"
  by (simp add: make_safe_filename_def re_sub_runs_filter string_defs)

lemma sample_join:
  "posix_join (u ''/docs/images'') (u ''paper_p2_rect1'' @ u ''.png'') =
     u ''/docs/images/paper_p2_rect1.png''"
  by (simp add: posix_defs u_def)

lemma sample_strips:
  "strip (u ''Figure 1'') = u ''Figure 1''" "strip (u ''key  idea'') = u ''key  idea''"
  "strip (u ''see 2'') = u ''see 2''" "strip (u ''hello'') = u ''hello''"
  "strip (u ''old text'') = u ''old text''"
  by (simp_all add: string_defs)

lemma sample_normalized:
  "normalize_highlight_text (u ''key  idea'') = u ''keyidea''"
  "normalize_highlight_text (u ''see 2'') = u ''see2''"
  "normalize_highlight_text (u ''old text'') = u ''oldtext''"
  by (simp_all add: normalize_highlight_text_def re_sub_runs_filter string_defs)

lemma sample_extracted:
  "extract_highlight_text sample_highlight = Returns (u ''key  idea'')"
  "extract_highlight_text sample_plain = Returns (u ''see 2'')"
  "extract_highlight_text sample_underline = Returns (u ''see 2'')"
  "extract_highlight_text sample_strikeout = Returns (u ''old text'')"
  by (simp_all add: extract_highlight_text_def sample_defs string_defs)

lemma sample_rgb:
  "rgb_from_annot sample_highlight = Inr (230, 0, 0)"
  "rgb_from_annot sample_plain = Inr (255, 212, 0)"
  "rgb_from_annot sample_square = Inr (0, 112, 192)"
  "rgb_from_annot sample_note = Inr (255, 212, 0)"
  "rgb_from_annot sample_underline = Inr (255, 212, 0)"
  "rgb_from_annot sample_strikeout = Inr (255, 212, 0)"
  by (simp_all add: rgb_from_annot_def sample_defs)

lemma sample_types:
  "a_type sample_highlight = Returns 8" "a_type sample_note = Returns 2"
  "a_type sample_plain = Returns 8" "a_type sample_square = Returns 4"
  "a_type sample_underline = Returns 9" "a_type sample_strikeout = Returns 11"
  by (simp_all add: sample_defs)

lemma sample_nonempty:
  "u ''keyidea'' \<noteq> []" "u ''see2'' \<noteq> []" "u ''Figure 1'' \<noteq> []" "u ''hello'' \<noteq> []"
  "u ''oldtext'' \<noteq> []"
  by (simp_all add: u_def)

lemma sample_note_text: "note_text (Some (u ''hello'')) = u ''hello''"
  by (simp add: note_text_def string_defs)

lemma sample_steps:
  "annot_step (sample_env x) pdf_path image_dir min_dpi page_index sample_highlight (st, n) =
   Inr (st\<lparr>highlight_groups := dd_append (highlight_groups st) ''red'' (u ''keyidea'')\<rparr>, n)"
  "annot_step (sample_env x) pdf_path image_dir min_dpi page_index sample_note (st, n) =
   Inr (st\<lparr>notes_blocks := notes_blocks st @ [u ''hello'']\<rparr>, n)"
  "annot_step (sample_env x) pdf_path image_dir min_dpi page_index sample_plain (st, n) =
   Inr (st\<lparr>highlight_groups := dd_append (highlight_groups st) ''yellow'' (u ''see2'')\<rparr>, n)"
  "annot_step (sample_env x) (u ''/docs/paper.pdf'') (u ''/docs/images'') min_dpi (Suc 0)
     sample_square (st, 0) =
   Inr (st\<lparr>rect_groups := dd_append (rect_groups st) ''blue''
              \<lparr>image_path = Some (u ''/docs/images/paper_p2_rect1.png''),
               rect_text = Some (u ''Figure 1'')\<rparr>,
            saved_images := saved_images st @ [u ''/docs/images/paper_p2_rect1.png'']\<rparr>, Suc 0)"
proof -
  have content: "a_content sample_note = Returns (Some (u ''hello''))"
    "a_rect_text sample_square = Returns (u ''Figure 1'')" "a_save_ok sample_square"
    by (simp_all add: sample_defs)
  have env: "splitext_root (sample_env x) = posix_splitext_root"
    "basename (sample_env x) = posix_basename" "path_join (sample_env x) = posix_join"
    "strikeout_name (sample_env x) = Raises"
    by (simp_all add: sample_env_def)
  show
    "annot_step (sample_env x) pdf_path image_dir min_dpi page_index sample_highlight (st, n) =
     Inr (st\<lparr>highlight_groups := dd_append (highlight_groups st) ''red'' (u ''keyidea'')\<rparr>, n)"
    by (simp add: annot_step_def subtype_of_def sample_types sample_rgb sample_extracted
        sample_normalized sample_nonempty sample_colors annot_codes)
  show
    "annot_step (sample_env x) pdf_path image_dir min_dpi page_index sample_note (st, n) =
     Inr (st\<lparr>notes_blocks := notes_blocks st @ [u ''hello'']\<rparr>, n)"
    using sample_note_text
    by (simp add: annot_step_def subtype_of_def sample_types sample_rgb content note_text_def
        sample_nonempty annot_codes)
  show
    "annot_step (sample_env x) pdf_path image_dir min_dpi page_index sample_plain (st, n) =
     Inr (st\<lparr>highlight_groups := dd_append (highlight_groups st) ''yellow'' (u ''see2'')\<rparr>, n)"
    by (simp add: annot_step_def subtype_of_def sample_types sample_rgb sample_extracted
        sample_normalized sample_nonempty sample_colors annot_codes env)
  show
    "annot_step (sample_env x) (u ''/docs/paper.pdf'') (u ''/docs/images'') min_dpi (Suc 0)
       sample_square (st, 0) =
     Inr (st\<lparr>rect_groups := dd_append (rect_groups st) ''blue''
                \<lparr>image_path = Some (u ''/docs/images/paper_p2_rect1.png''),
                 rect_text = Some (u ''Figure 1'')\<rparr>,
              saved_images := saved_images st @ [u ''/docs/images/paper_p2_rect1.png'']\<rparr>, Suc 0)"
    by (simp add: annot_step_def subtype_of_def sample_types sample_rgb content env
        sample_nonempty sample_colors annot_codes save_rect_image_def str_nat_small sample_title
        sample_name sample_join sample_strips)
qed

lemma sample_scan:
  "scan_pages (sample_env x) (u ''/docs/paper.pdf'') (u ''/docs/images'') min_dpi 0
     (map (\<lambda>page. Returns (chain_of page)) sample_doc) empty_collected = Inr sample_collected"
  by (simp add: sample_doc_def sample_steps empty_collected_def sample_collected_def dd_append_def)

lemma sample_paths:
  "md_path (sample_env x) (u ''/docs/paper.pdf'') None = u ''/docs/paper.annotations.md''"
  "images_dir (sample_env x) (u ''/docs/paper.pdf'') None (u ''images'') = u ''/docs/images''"
  "splitext_root (sample_env x) (basename (sample_env x) (u ''/docs/paper.pdf'')) = u ''paper''"
  "dirname (sample_env x) (u ''/docs/paper.annotations.md'') = u ''/docs''"
  by (simp_all add: md_path_def images_dir_def sample_env_def posix_defs u_def)

lemma sample_env_files:
  "isfile (sample_env x) (u ''/docs/paper.pdf'')" "isfile (sample_env x) (u ''/docs/draft.pdf'')"
  "\<not> isfile (sample_env x) (u ''/docs/none.pdf'')"
  "fitz_open (sample_env x) p = x" "can_write (sample_env x) p"
  "strikeout_name (sample_env x) = Raises" "getcwd (sample_env x) \<noteq> Raises"
  by (simp_all add: sample_env_def u_def)

text \<open>The export of a document that the library reads without an exception, on the
  sample machine, from the containers at the end of its loops.\<close>

lemma sample_env_export:
  assumes "scan_pages (sample_env (Inr (readable_doc pages))) (u ''/docs/paper.pdf'')
             (u ''/docs/images'') min_dpi 0 (map (\<lambda>page. Returns (chain_of page)) pages)
             empty_collected = Inr st"
  shows "export_pdf_annotations (sample_env (Inr (readable_doc pages))) (u ''/docs/paper.pdf'')
           None (u ''images'') min_dpi =
         (Inr (u ''/docs/paper.annotations.md''),
          map PngFile (saved_images st) @
          [TextFile (u ''/docs/paper.annotations.md'') (build_markdown (u ''paper'') st)])"
proof -
  note r = export_returns [of "sample_env (Inr (readable_doc pages))" "u ''/docs/paper.pdf''"
      None "readable_doc pages" "map (\<lambda>page. Returns (chain_of page)) pages" "u ''images''"
      min_dpi st]
  have "export_pdf_annotations (sample_env (Inr (readable_doc pages))) (u ''/docs/paper.pdf'')
           None (u ''images'') min_dpi =
     (Inr (md_path (sample_env (Inr (readable_doc pages))) (u ''/docs/paper.pdf'') None),
      map PngFile (saved_images st) @
      [TextFile (md_path (sample_env (Inr (readable_doc pages))) (u ''/docs/paper.pdf'') None)
         (build_markdown (splitext_root (sample_env (Inr (readable_doc pages)))
            (basename (sample_env (Inr (readable_doc pages))) (u ''/docs/paper.pdf''))) st)])"
    using assms
    by (intro r) (simp_all add: sample_env_files pages_of_readable_doc sample_paths)
  then show ?thesis by (simp only: sample_paths)
qed

lemma sample_export:
  "export_pdf_annotations (sample_env (Inr (readable_doc sample_doc))) (u ''/docs/paper.pdf'')
     None (u ''images'') 144 =
   (Inr (u ''/docs/paper.annotations.md''),
    [PngFile (u ''/docs/images/paper_p2_rect1.png''),
     TextFile (u ''/docs/paper.annotations.md'') (build_markdown (u ''paper'') sample_collected)])"
  using sample_env_export [OF sample_scan]
  by (simp add: sample_collected_def)

subsection \<open>Grouping by colour\<close>

text \<open>
  C3. The Markdown file that a run writes is, up to the final \<open>rstrip\<close>, the lines of the
  title, the Highlights section, the Notes section and the Rectangles / Figures section,
  joined by newlines. The two coloured sections hold one subsection per colour whose
  group is not empty and none for a colour whose group is empty, in the order yellow, red,
  blue, green, purple; the group of a colour holds the highlighted texts, respectively
  the rectangle and circle entries, of the annotations of the document classified into
  that colour.
\<close>

theorem color_subsections_in_order:
  assumes "export_pdf_annotations env pdf_path out_md img_dir min_dpi = (Inr out, written)"
    and "fitz_open env pdf_path = Inr doc"
  shows "(\<exists>images. written = map PngFile images @
           [TextFile out
              (rstrip (str_join [10]
                 ([u ''# Annotations for '' @ splitext_root env (basename env pdf_path), []] @
                  color_section (u ''## Highlights'')
                    (\<lambda>k. map (\<lambda>txt. u ''- > '' @ txt)
                            (pick k (concat (map (marked env) (concat (annots_of doc))))) @ [[]])
                    (\<lambda>k. pick k (concat (map (marked env) (concat (annots_of doc)))) \<noteq> []) @
                  notes_section (concat (map noted (concat (annots_of doc)))) @
                  color_section (u ''## Rectangles / Figures'')
                    (\<lambda>k. concat (map rect_item_lines
                            (pick k (doc_shapes env pdf_path
                                       (images_dir env pdf_path out_md img_dir) 0 (annots_of doc)))))
                    (\<lambda>k. pick k (doc_shapes env pdf_path
                                   (images_dir env pdf_path out_md img_dir) 0 (annots_of doc)) \<noteq> [])))
               @ [10])]) \<and>
         order = [''yellow'', ''red'', ''blue'', ''green'', ''purple'']"
proof -
  note report = export_report(2) [OF assms,
      unfolded highlights_section_def rects_section_def texts_of_def]
  have "order = [''yellow'', ''red'', ''blue'', ''green'', ''purple'']"
    by (simp add: order_def)
  with report show ?thesis by blast
qed

lemma page_annots_of [simp]: "map page_annots (map (\<lambda>page. Returns (chain_of page)) pages) = pages"
  by (induction pages) (simp_all add: page_annots_def)

lemma sample_groups:
  "get_list (highlight_groups sample_collected) ''yellow'' = [u ''see2'']"
  "get_list (highlight_groups sample_collected) ''red'' = [u ''keyidea'']"
  "get_list (highlight_groups sample_collected) ''blue'' = []"
  "get_list (highlight_groups sample_collected) ''green'' = []"
  "get_list (highlight_groups sample_collected) ''purple'' = []"
  "get_list (rect_groups sample_collected) ''yellow'' = []"
  "get_list (rect_groups sample_collected) ''red'' = []"
  "get_list (rect_groups sample_collected) ''blue'' =
     [\<lparr>image_path = Some (u ''/docs/images/paper_p2_rect1.png''),
       rect_text = Some (u ''Figure 1'')\<rparr>]"
  "get_list (rect_groups sample_collected) ''green'' = []"
  "get_list (rect_groups sample_collected) ''purple'' = []"
  "notes_blocks sample_collected = [u ''hello'']"
  by (simp_all add: sample_collected_def get_list_def)

text \<open>What the sample document adds to the groups, read off the containers of its run.\<close>

lemma sample_added:
  "pick k (concat (map (marked (sample_env x)) (concat sample_doc))) =
     get_list (highlight_groups sample_collected) k"
  "concat (map noted (concat sample_doc)) = notes_blocks sample_collected"
  "pick k (doc_shapes (sample_env x) (u ''/docs/paper.pdf'') (u ''/docs/images'') 0 sample_doc) =
     get_list (rect_groups sample_collected) k"
proof -
  note run = scan_pages_run [OF sample_scan [of x], unfolded page_annots_of]
  from run(1) show "pick k (concat (map (marked (sample_env x)) (concat sample_doc))) =
     get_list (highlight_groups sample_collected) k"
    by (simp add: texts_of_def)
  from run(2) show "concat (map noted (concat sample_doc)) = notes_blocks sample_collected"
    by simp
  from run(3) show
    "pick k (doc_shapes (sample_env x) (u ''/docs/paper.pdf'') (u ''/docs/images'') 0 sample_doc) =
     get_list (rect_groups sample_collected) k"
    by simp
qed

lemma sample_link:
  "rect_item_lines \<lparr>image_path = Some (u ''/docs/images/paper_p2_rect1.png''),
                     rect_text = Some (u ''Figure 1'')\<rparr> =
     [u ''![](/docs/images/paper_p2_rect1.png)'', []]"
  by (simp add: rect_item_lines_def replace_char_def u_def)

lemma sample_callout: "callout (u ''hello'') = [note_header, u ''> hello'', []]"
  by (simp add: callout_def string_defs)

lemma sample_lines:
  "[u ''# Annotations for '' @ u ''paper'', []] @
   color_section (u ''## Highlights'')
     (\<lambda>k. map (\<lambda>txt. u ''- > '' @ txt) (get_list (highlight_groups sample_collected) k) @ [[]])
     (\<lambda>k. get_list (highlight_groups sample_collected) k \<noteq> []) @
   notes_section (notes_blocks sample_collected) @
   color_section (u ''## Rectangles / Figures'')
     (\<lambda>k. concat (map rect_item_lines (get_list (rect_groups sample_collected) k)))
     (\<lambda>k. get_list (rect_groups sample_collected) k \<noteq> []) =
   [u ''# Annotations for paper'', [],
    u ''## Highlights'', [],
    u ''### '' @ title_of ''yellow'', [], u ''- > see2'', [],
    u ''### '' @ title_of ''red'', [], u ''- > keyidea'', [],
    u ''## Notes'', [], note_header, u ''> hello'', [],
    u ''## Rectangles / Figures'', [],
    u ''### '' @ title_of ''blue'', [], u ''![](/docs/images/paper_p2_rect1.png)'', []]"
  by (simp add: color_section_def notes_section_def order_def sample_groups sample_link
      sample_callout sample_nonempty)
    (simp add: u_def)

theorem color_subsections_in_order_witness:
  "export_pdf_annotations (sample_env (Inr (readable_doc sample_doc))) (u ''/docs/paper.pdf'')
     None (u ''images'') 144 =
   (Inr (u ''/docs/paper.annotations.md''),
    [PngFile (u ''/docs/images/paper_p2_rect1.png''),
     TextFile (u ''/docs/paper.annotations.md'')
       (build_markdown (u ''paper'') sample_collected)]) \<and>
   fitz_open (sample_env (Inr (readable_doc sample_doc))) (u ''/docs/paper.pdf'') =
     Inr (readable_doc sample_doc) \<and>
   (\<exists>images.
      [PngFile (u ''/docs/images/paper_p2_rect1.png''),
       TextFile (u ''/docs/paper.annotations.md'')
         (build_markdown (u ''paper'') sample_collected)] =
      map PngFile images @
      [TextFile (u ''/docs/paper.annotations.md'')
         (rstrip (str_join [10]
            [u ''# Annotations for paper'', [],
             u ''## Highlights'', [],
             u ''### '' @ title_of ''yellow'', [], u ''- > see2'', [],
             u ''### '' @ title_of ''red'', [], u ''- > keyidea'', [],
             u ''## Notes'', [], note_header, u ''> hello'', [],
             u ''## Rectangles / Figures'', [],
             u ''### '' @ title_of ''blue'', [], u ''![](/docs/images/paper_p2_rect1.png)'', []])
          @ [10])])"
proof -
  have opened: "fitz_open (sample_env (Inr (readable_doc sample_doc))) (u ''/docs/paper.pdf'') =
     Inr (readable_doc sample_doc)"
    by (simp add: sample_env_files)
  from color_subsections_in_order [OF sample_export opened]
  have "\<exists>images.
      [PngFile (u ''/docs/images/paper_p2_rect1.png''),
       TextFile (u ''/docs/paper.annotations.md'')
         (build_markdown (u ''paper'') sample_collected)] =
      map PngFile images @
      [TextFile (u ''/docs/paper.annotations.md'')
         (rstrip (str_join [10]
            [u ''# Annotations for paper'', [],
             u ''## Highlights'', [],
             u ''### '' @ title_of ''yellow'', [], u ''- > see2'', [],
             u ''### '' @ title_of ''red'', [], u ''- > keyidea'', [],
             u ''## Notes'', [], note_header, u ''> hello'', [],
             u ''## Rectangles / Figures'', [],
             u ''### '' @ title_of ''blue'', [], u ''![](/docs/images/paper_p2_rect1.png)'', []])
          @ [10])]"
    unfolding annots_of_readable_doc sample_paths sample_added sample_lines
    by blast
  with sample_export opened show ?thesis by blast
qed

subsection \<open>Highlights\<close>





subsection \<open>Underline and strike-out\<close>

text \<open>If \<open>fitz.PDF_ANNOT_STRIKEOUT\<close> were the type number of strike-out annotations, one pass
  of the loop would treat an underline or strike-out annotation as it treats a highlight
  with the same colour and text.\<close>

lemma markup_taken_with_name:
  assumes "strikeout_name env = Returns PDF_ANNOT_STRIKE_OUT"
    and "a_type annot = Returns PDF_ANNOT_UNDERLINE \<or> a_type annot = Returns PDF_ANNOT_STRIKE_OUT"
  shows "annot_step env pdf_path image_dir min_dpi page_index annot s =
           annot_step env pdf_path image_dir min_dpi page_index
             (annot\<lparr>a_type := Returns PDF_ANNOT_HIGHLIGHT\<rparr>) s"
proof -
  have same: "extract_highlight_text (annot\<lparr>a_type := v\<rparr>) = extract_highlight_text annot"
    "rgb_from_annot (annot\<lparr>a_type := v\<rparr>) = rgb_from_annot annot" for v
    by (simp_all add: extract_highlight_text_def rgb_from_annot_def Let_def)
  show ?thesis
    using assms
    by (auto simp: annot_step_def subtype_of_def same annot_codes Let_def
        split: sum.splits prod.splits)
qed

text \<open>The module has no attribute of that name: the last branch is abandoned, and an
  underline or strike-out annotation leaves the containers as they are.\<close>

lemma markup_skipped_without_name:
  assumes "strikeout_name env = Raises"
    "a_type annot = Returns PDF_ANNOT_UNDERLINE \<or> a_type annot = Returns PDF_ANNOT_STRIKE_OUT"
    "rgb_from_annot annot = Inr color"
  shows "annot_step env pdf_path image_dir min_dpi page_index annot (st, n) = Inr (st, n)"
  using assms by (auto simp: annot_step_def subtype_of_def annot_codes)

lemma empty_markdown:
  "build_markdown (u ''paper'') empty_collected = u ''# Annotations for paper'' @ [10]"
  by (simp add: build_markdown_def build_lines_def empty_collected_def order_def rstrip_def
      isspace_def u_def)

lemma saved_images_empty [simp]: "saved_images empty_collected = []"
  by (simp add: empty_collected_def)

text \<open>
  C8. Underline and strike-out annotations are not rendered. The last branch of the loop
  names the type number of strike-out annotations \<open>fitz.PDF_ANNOT_STRIKEOUT\<close>; the module
  has it as \<open>PDF_ANNOT_STRIKE_OUT\<close>, so the branch raises \<open>AttributeError\<close> inside the \<open>try\<close>
  before it compares anything. A document whose annotations are an underline over the text
  \<open>see 2\<close> and a strike-out over the text \<open>old text\<close> is exported without a Highlights section:
  the Markdown is the title line alone.
\<close>

theorem underline_strikeout_not_exported:
  "a_type sample_underline = Returns PDF_ANNOT_UNDERLINE \<and>
   extract_highlight_text sample_underline = Returns (u ''see 2'') \<and>
   normalize_highlight_text (u ''see 2'') = u ''see2'' \<and>
   a_type sample_strikeout = Returns PDF_ANNOT_STRIKE_OUT \<and>
   extract_highlight_text sample_strikeout = Returns (u ''old text'') \<and>
   normalize_highlight_text (u ''old text'') = u ''oldtext'' \<and>
   strikeout_name (sample_env (Inr (readable_doc [[sample_underline, sample_strikeout]]))) = Raises \<and>
   export_pdf_annotations (sample_env (Inr (readable_doc [[sample_underline, sample_strikeout]])))
     (u ''/docs/paper.pdf'') None (u ''images'') 144 =
   (Inr (u ''/docs/paper.annotations.md''),
    [TextFile (u ''/docs/paper.annotations.md'') (u ''# Annotations for paper'' @ [10])])"
proof -
  have ty: "a_type sample_underline = Returns PDF_ANNOT_UNDERLINE"
    "a_type sample_strikeout = Returns PDF_ANNOT_STRIKE_OUT"
    by (simp_all add: sample_types annot_codes)
  have "scan_pages (sample_env (Inr (readable_doc [[sample_underline, sample_strikeout]])))
          (u ''/docs/paper.pdf'') (u ''/docs/images'') 144 0
          (map (\<lambda>page. Returns (chain_of page)) [[sample_underline, sample_strikeout]])
          empty_collected = Inr empty_collected"
    by (simp add: markup_skipped_without_name [OF sample_env_files(6) _ sample_rgb(5)]
        markup_skipped_without_name [OF sample_env_files(6) _ sample_rgb(6)] ty)
  from sample_env_export [OF this] ty show ?thesis
    by (simp add: sample_extracted sample_normalized sample_env_files empty_markdown)
qed

subsection \<open>What the export returns and writes\<close>





subsection \<open>Notes\<close>

text \<open>The subtype of a text annotation is the empty string, which no branch takes.\<close>

lemma text_annotation_skipped:
  assumes "a_type annot = Returns PDF_ANNOT_TEXT" "rgb_from_annot annot = Inr color"
  shows "annot_step env pdf_path image_dir min_dpi page_index annot (st, n) = Inr (st, n)"
  using assms by (auto simp: annot_step_def subtype_of_def annot_codes split: attempt.splits)

lemma sample_text_note_facts:
  "a_type sample_text_note = Returns PDF_ANNOT_TEXT"
  "rgb_from_annot sample_text_note = Inr (255, 212, 0)"
  "a_content sample_text_note = Returns (Some (u ''hello''))"
  by (simp_all add: sample_text_note_def sample_annot_def annot_codes rgb_from_annot_def)

text \<open>
  C5. A text annotation is not rendered: a document whose only annotation is a text
  annotation (type number 0) with the content \<open>hello\<close> is exported without a Notes section,
  the Markdown is the title line alone. A free-text annotation with the same content is
  rendered as a callout, as the sample run shows.
\<close>

theorem text_annotation_not_exported:
  "a_type sample_text_note = Returns PDF_ANNOT_TEXT \<and>
   a_content sample_text_note = Returns (Some (u ''hello'')) \<and>
   export_pdf_annotations (sample_env (Inr (readable_doc [[sample_text_note]])))
     (u ''/docs/paper.pdf'') None (u ''images'') 144 =
   (Inr (u ''/docs/paper.annotations.md''),
    [TextFile (u ''/docs/paper.annotations.md'') (u ''# Annotations for paper'' @ [10])])"
proof -
  have "scan_pages (sample_env (Inr (readable_doc [[sample_text_note]]))) (u ''/docs/paper.pdf'')
          (u ''/docs/images'') 144 0
          (map (\<lambda>page. Returns (chain_of page)) [[sample_text_note]]) empty_collected =
        Inr empty_collected"
    by (simp add: text_annotation_skipped [OF sample_text_note_facts(1,2)])
  from sample_env_export [OF this] show ?thesis
    by (simp add: sample_text_note_facts empty_markdown)
qed

subsection \<open>Rectangles and circles\<close>

lemma numbered_nth:
  "j < length page \<Longrightarrow>
   numbered n page ! j = (n + length (filter is_shape (take (Suc j) page)), page ! j)"
proof (induction page arbitrary: n j)
  case Nil
  then show ?case by simp
next
  case (Cons a page)
  show ?case
  proof (cases j)
    case 0
    then show ?thesis by (simp add: Let_def)
  next
    case (Suc j')
    with Cons.prems have "j' < length page" by simp
    from Cons.IH [OF this] Suc show ?thesis by (simp add: Let_def)
  qed
qed

lemma length_numbered [simp]: "length (numbered n page) = length page"
  by (induction page arbitrary: n) (simp_all add: Let_def)

lemma doc_shapes_member:
  assumes "i < length doc" "j < length (doc ! i)"
    "x \<in> set (shaped env pdf_path image_dir i (numbered 0 (doc ! i) ! j))"
  shows "x \<in> set (doc_shapes env pdf_path image_dir 0 doc)"
proof -
  from assms(1) have "(i, doc ! i) \<in> set (enumerate 0 doc)"
    by (metis add_0 in_set_conv_nth length_enumerate nth_enumerate_eq)
  moreover from assms(2) have "numbered 0 (doc ! i) ! j \<in> set (numbered 0 (doc ! i))"
    by simp
  with assms(3) have "x \<in> set (page_shapes env pdf_path image_dir i 0 (doc ! i))"
    by (auto simp: page_shapes_def)
  ultimately show ?thesis by (force simp: doc_shapes_def)
qed

lemma rects_section_item:
  assumes "k \<in> set order" "e \<in> set (entries k)" "image_path e = Some f" "f \<noteq> []"
  shows "u ''![]('' @ replace_char 92 [47] f @ u '')'' \<in> set (rects_section entries)"
proof -
  from assms(2) have present: "entries k \<noteq> []" by auto
  from color_section_segment [OF assms(1), of "\<lambda>k. entries k \<noteq> []", OF present]
  obtain pre post where seg: "rects_section entries =
      pre @ [u ''### '' @ title_of k, []] @ concat (map rect_item_lines (entries k)) @ post"
    unfolding rects_section_def by blast
  from assms(3,4) have "u ''![]('' @ replace_char 92 [47] f @ u '')'' \<in> set (rect_item_lines e)"
    by (simp add: rect_item_lines_def)
  with assms(2) have "u ''![]('' @ replace_char 92 [47] f @ u '')''
      \<in> set (concat (map rect_item_lines (entries k)))"
    by auto
  with seg show ?thesis by simp
qed

lemma str_nat_digits: "c \<in> set (str_nat n) \<Longrightarrow> 48 \<le> c \<and> c \<le> 57"
proof (induction n arbitrary: c rule: str_nat.induct)
  case (1 n)
  show ?case
  proof (cases "n < 10")
    case True
    with "1.prems" show ?thesis by (simp add: str_nat.simps [of n])
  next
    case False
    with "1.prems" have "c \<in> set (str_nat (n div 10)) \<or> c = 48 + n mod 10"
      by (auto simp: str_nat.simps [of n])
    then show ?thesis
    proof
      assume "c \<in> set (str_nat (n div 10))"
      with False "1.IH" show ?thesis by blast
    next
      assume "c = 48 + n mod 10"
      moreover have "n mod 10 < 10" by simp
      ultimately show ?thesis by linarith
    qed
  qed
qed

lemma replace_space: "replace_char 32 [] s = filter (\<lambda>c. c \<noteq> 32) s"
  by (induction s) (simp_all add: replace_char_def)

text \<open>The base name of an image: the title with the other characters removed, the page
  number and the number of the rectangle.\<close>

lemma safe_image_name:
  "make_safe_filename [title, u ''p'' @ str_nat a, u ''rect'' @ str_nat b] =
     filter filename_allowed title @ u ''_p'' @ str_nat a @ u ''_rect'' @ str_nat b"
proof -
  have digits: "filter filename_allowed (filter (\<lambda>c. c \<noteq> 32) (str_nat m)) = str_nat m" for m
  proof -
    have "filename_allowed c \<and> c \<noteq> 32" if "c \<in> set (str_nat m)" for c
      using str_nat_digits [OF that] by (auto simp: filename_allowed_def)
    then show ?thesis by (simp add: filter_id_conv)
  qed
  have title: "filter filename_allowed (filter (\<lambda>c. c \<noteq> 32) title) =
               filter filename_allowed title"
  proof -
    have "filter filename_allowed (filter (\<lambda>c. c \<noteq> 32) title) =
          filter (\<lambda>c. c \<noteq> 32 \<and> filename_allowed c) title"
      by simp
    also have "\<dots> = filter filename_allowed title"
      by (rule filter_cong) (auto simp: filename_allowed_def)
    finally show ?thesis .
  qed
  have lit: "filter filename_allowed (filter (\<lambda>c. c \<noteq> 32) (u ''_'' @ u ''p'')) = u ''_p''"
    "filter filename_allowed (filter (\<lambda>c. c \<noteq> 32) (u ''_'' @ u ''rect'')) = u ''_rect''"
    by (simp_all add: u_def filename_allowed_def)
  have "make_safe_filename [title, u ''p'' @ str_nat a, u ''rect'' @ str_nat b] =
        filter filename_allowed (filter (\<lambda>c. c \<noteq> 32) title) @
        filter filename_allowed (filter (\<lambda>c. c \<noteq> 32) (u ''_'' @ u ''p'')) @
        filter filename_allowed (filter (\<lambda>c. c \<noteq> 32) (str_nat a)) @
        filter filename_allowed (filter (\<lambda>c. c \<noteq> 32) (u ''_'' @ u ''rect'')) @
        filter filename_allowed (filter (\<lambda>c. c \<noteq> 32) (str_nat b))"
    by (simp add: make_safe_filename_def re_sub_runs_filter replace_space)
  then show ?thesis by (simp only: digits title lit)
qed

lemma shaped_saved:
  assumes "is_shape annot" "a_rect_text annot = Returns t" "a_save_ok annot"
    "rgb_from_annot annot = Inr color"
  shows "shaped env pdf_path image_dir i (n, annot) =
     [(categorize_color color,
       \<lparr>image_path = Some (image_file env pdf_path image_dir i n),
        rect_text = (if strip t \<noteq> [] then Some (strip t) else None)\<rparr>)]"
  using assms by (simp add: shaped_def)

lemma saved_of_member:
  "(c, e) \<in> set es \<Longrightarrow> image_path e = Some f \<Longrightarrow> f \<in> set (saved_of es)"
  by (force simp: saved_of_def)

lemma pick_member: "(c, e) \<in> set es \<Longrightarrow> e \<in> set (pick c es)"
  by (force simp: pick_def)

text \<open>
  C6 (as amended). Take a run that returns, and a rectangle or circle annotation at
  position \<open>j\<close> of the page with index \<open>i\<close> for which the text under the rectangle can be
  read and the image can be saved. Then the run saved a PNG at the path that joins the
  image directory and the base name \<open><title>_p<i+1>_rect<n>.png\<close>, where the title is
  stripped of every character outside \<open>[A-Za-z0-9_-]\<close> and \<open>n\<close> counts the rectangles and
  circles of the page up to this one; and the Rectangles / Figures section, which ends
  the report, has the line \<open>![](path)\<close> with every backslash of the path turned into a
  slash.
\<close>

theorem shape_image_saved_and_linked:
  assumes "export_pdf_annotations env pdf_path out_md img_dir min_dpi = (Inr out, written)"
    and "fitz_open env pdf_path = Inr doc"
    and "i < length (annots_of doc)" and "j < length (annots_of doc ! i)"
    and "is_shape (annots_of doc ! i ! j)" and "a_rect_text (annots_of doc ! i ! j) = Returns t"
    and "a_save_ok (annots_of doc ! i ! j)"
    and "n = length (filter is_shape (take (Suc j) (annots_of doc ! i)))"
    and "file = image_file env pdf_path (images_dir env pdf_path out_md img_dir) i n"
    and "file \<noteq> []"
  shows "PngFile file \<in> set written \<and>
         file = path_join env (images_dir env pdf_path out_md img_dir)
                  (filter filename_allowed (splitext_root env (basename env pdf_path)) @
                   u ''_p'' @ str_nat (i + 1) @ u ''_rect'' @ str_nat n @ u ''.png'') \<and>
         (\<exists>st. written = map PngFile (saved_images st) @
                  [TextFile out (build_markdown (splitext_root env (basename env pdf_path)) st)] \<and>
               u ''![]('' @ replace_char 92 [47] file @ u '')''
                 \<in> set (rects_section (get_list (rect_groups st))) \<and>
               (\<exists>pre. build_lines (splitext_root env (basename env pdf_path)) st =
                        pre @ rects_section (get_list (rect_groups st))) \<and>
               build_markdown (splitext_root env (basename env pdf_path)) st =
                 rstrip (str_join [10]
                   (build_lines (splitext_root env (basename env pdf_path)) st)) @ [10])"
proof -
  let ?dir = "images_dir env pdf_path out_md img_dir"
  let ?title = "splitext_root env (basename env pdf_path)"
  let ?doc = "annots_of doc"
  let ?a = "?doc ! i ! j"
  from export_returned [OF assms(1)] assms(2) obtain pages st where
    pages: "d_pages doc = Returns pages" and
    run0: "scan_pages env pdf_path ?dir min_dpi 0 pages empty_collected = Inr st" and
    written: "written = map PngFile (saved_images st) @ [TextFile out (build_markdown ?title st)]"
    by auto
  note doc = annots_of_pages [OF pages]
  note run = scan_pages_run [OF run0, folded doc]
  from assms(3,4) have mem: "?a \<in> set (concat ?doc)"
    by (metis nth_mem set_concat UN_I)
  from export_report(4) [OF assms(1,2)] mem
  obtain color where color: "rgb_from_annot ?a = Inr color" by blast
  let ?e = "\<lparr>image_path = Some file,
             rect_text = (if strip t \<noteq> [] then Some (strip t) else None)\<rparr>"
  from numbered_nth [OF assms(4), of 0] assms(8)
  have "numbered 0 (?doc ! i) ! j = (n, ?a)" by simp
  with shaped_saved [OF assms(5,6,7) color, of env pdf_path ?dir i n] assms(9)
  have "(categorize_color color, ?e) \<in> set (shaped env pdf_path ?dir i (numbered 0 (?doc ! i) ! j))"
    by simp
  from doc_shapes_member [OF assms(3,4) this]
  have entry: "(categorize_color color, ?e) \<in> set (doc_shapes env pdf_path ?dir 0 ?doc)" .
  from saved_of_member [OF entry] run(4)
  have "file \<in> set (saved_images st)" by simp
  with written have png: "PngFile file \<in> set written" by simp
  from pick_member [OF entry] run(3)
  have "?e \<in> set (get_list (rect_groups st) (categorize_color color))" by simp
  from rects_section_item [of "categorize_color color" ?e "get_list (rect_groups st)" "file",
      OF categorize_color_key this] assms(10)
  have link: "u ''![]('' @ replace_char 92 [47] file @ u '')''
      \<in> set (rects_section (get_list (rect_groups st)))"
    by simp
  have "build_lines ?title st =
     ([u ''# Annotations for '' @ ?title, []] @
      highlights_section (get_list (highlight_groups st)) @
      notes_section (notes_blocks st)) @
     rects_section (get_list (rect_groups st))"
    using run_lines [OF run0, of ?title] scan_pages_run [OF run0] by simp
  then have lines: "\<exists>pre. build_lines ?title st = pre @ rects_section (get_list (rect_groups st))"
    by blast
  have md: "build_markdown ?title st = rstrip (str_join [10] (build_lines ?title st)) @ [10]"
    by (simp add: build_markdown_def)
  have name: "file = path_join env ?dir
                  (filter filename_allowed ?title @
                   u ''_p'' @ str_nat (i + 1) @ u ''_rect'' @ str_nat n @ u ''.png'')"
    using assms(9) by (simp add: image_file_def safe_image_name)
  from png name written link lines md show ?thesis by blast
qed

lemma sample_square_facts:
  "sample_doc ! 1 ! 1 = sample_square" "length sample_doc = 2" "length (sample_doc ! 1) = 2"
  "is_shape sample_square" "a_rect_text sample_square = Returns (u ''Figure 1'')"
  "a_save_ok sample_square"
  "length (filter is_shape (take (Suc 1) (sample_doc ! 1))) = 1"
  by (simp_all add: sample_doc_def is_shape_def sample_types annot_codes sample_square_def
      sample_annot_def sample_plain_def)

lemma sample_image_file:
  "image_file (sample_env x) (u ''/docs/paper.pdf'') (u ''/docs/images'') 1 1 =
     u ''/docs/images/paper_p2_rect1.png''"
proof -
  have env: "splitext_root (sample_env x) = posix_splitext_root"
    "basename (sample_env x) = posix_basename" "path_join (sample_env x) = posix_join"
    by (simp_all add: sample_env_def)
  show ?thesis
    by (simp add: image_file_def env sample_title str_nat_small sample_name sample_join)
qed

theorem shape_image_saved_and_linked_witness:
  "export_pdf_annotations (sample_env (Inr (readable_doc sample_doc))) (u ''/docs/paper.pdf'')
     None (u ''images'') 144 =
   (Inr (u ''/docs/paper.annotations.md''),
    [PngFile (u ''/docs/images/paper_p2_rect1.png''),
     TextFile (u ''/docs/paper.annotations.md'') (build_markdown (u ''paper'') sample_collected)]) \<and>
   fitz_open (sample_env (Inr (readable_doc sample_doc))) (u ''/docs/paper.pdf'') =
     Inr (readable_doc sample_doc) \<and>
   annots_of (readable_doc sample_doc) ! 1 ! 1 = sample_square \<and> is_shape sample_square \<and>
   a_rect_text sample_square = Returns (u ''Figure 1'') \<and> a_save_ok sample_square \<and>
   image_file (sample_env (Inr (readable_doc sample_doc))) (u ''/docs/paper.pdf'')
     (u ''/docs/images'') 1 1 = u ''/docs/images/paper_p2_rect1.png'' \<and>
   (\<exists>st. u ''![]('' @ replace_char 92 [47] (u ''/docs/images/paper_p2_rect1.png'') @ u '')''
           \<in> set (rects_section (get_list (rect_groups st))) \<and>
         (\<exists>pre. build_lines (u ''paper'') st = pre @ rects_section (get_list (rect_groups st))))"
proof -
  let ?env = "sample_env (Inr (readable_doc sample_doc))"
  have ne: "u ''/docs/images/paper_p2_rect1.png'' \<noteq> []" by (simp add: u_def)
  have f: "u ''/docs/images/paper_p2_rect1.png'' =
     image_file ?env (u ''/docs/paper.pdf'')
       (images_dir ?env (u ''/docs/paper.pdf'') None (u ''images'')) 1 1"
    by (simp add: sample_paths sample_image_file [unfolded One_nat_def])
  have opened: "fitz_open ?env (u ''/docs/paper.pdf'') = Inr (readable_doc sample_doc)"
    by (simp add: sample_env_files)
  have len: "1 < length (annots_of (readable_doc sample_doc))"
    "1 < length (annots_of (readable_doc sample_doc) ! 1)"
    "is_shape (annots_of (readable_doc sample_doc) ! 1 ! 1)"
    "a_rect_text (annots_of (readable_doc sample_doc) ! 1 ! 1) = Returns (u ''Figure 1'')"
    "a_save_ok (annots_of (readable_doc sample_doc) ! 1 ! 1)"
    "1 = length (filter is_shape (take (Suc 1) (annots_of (readable_doc sample_doc) ! 1)))"
    using sample_square_facts by simp_all
  have sq: "annots_of (readable_doc sample_doc) ! 1 ! 1 = sample_square"
    using sample_square_facts(1) by simp
  from shape_image_saved_and_linked [OF sample_export opened len f ne]
  have "\<exists>st. u ''![]('' @ replace_char 92 [47] (u ''/docs/images/paper_p2_rect1.png'') @ u '')''
           \<in> set (rects_section (get_list (rect_groups st))) \<and>
         (\<exists>pre. build_lines (splitext_root ?env (basename ?env (u ''/docs/paper.pdf''))) st =
            pre @ rects_section (get_list (rect_groups st)))"
    by blast
  then have linked:
    "\<exists>st. u ''![]('' @ replace_char 92 [47] (u ''/docs/images/paper_p2_rect1.png'') @ u '')''
           \<in> set (rects_section (get_list (rect_groups st))) \<and>
         (\<exists>pre. build_lines (u ''paper'') st = pre @ rects_section (get_list (rect_groups st)))"
    by (simp only: sample_paths)
  from sample_export opened sq sample_square_facts(4,5,6)
    sample_image_file [of "Inr (readable_doc sample_doc)"] linked
  show ?thesis by (intro conjI) assumption+
qed

lemma sample_unsaved_step:
  "annot_step (sample_env x) (u ''/docs/paper.pdf'') (u ''/docs/images'') 144 0
     sample_unsaved_square (st, 0) =
   Inr (st\<lparr>rect_groups := dd_append (rect_groups st) ''blue''
              \<lparr>image_path = None, rect_text = Some (u ''Figure 1'')\<rparr>\<rparr>, Suc 0)"
proof -
  have facts: "a_type sample_unsaved_square = Returns 4"
    "rgb_from_annot sample_unsaved_square = Inr (0, 112, 192)"
    "a_rect_text sample_unsaved_square = Returns (u ''Figure 1'')"
    "\<not> a_save_ok sample_unsaved_square"
    by (simp_all add: sample_unsaved_square_def sample_square_def sample_annot_def
        rgb_from_annot_def)
  show ?thesis
    by (simp add: annot_step_def subtype_of_def facts annot_codes sample_colors
        save_rect_image_def sample_strips sample_nonempty)
qed

lemma sample_unsaved_markdown:
  "build_markdown (u ''paper'')
     (empty_collected\<lparr>rect_groups := dd_append (rect_groups empty_collected) ''blue''
        \<lparr>image_path = None, rect_text = Some (u ''Figure 1'')\<rparr>\<rparr>) =
   u ''# Annotations for paper'' @ [10, 10] @ u ''## Rectangles / Figures'' @ [10, 10] @
   u ''### '' @ title_of ''blue'' @ [10]"
  by (simp add: build_markdown_def build_lines_def empty_collected_def order_def dd_append_def
      get_list_def rect_item_lines_def rstrip_def isspace_def u_def title_of_def COLOR_TITLES_def)

text \<open>A rectangle whose image cannot be saved: the run returns, saves no image and the
  report has the heading of the colour but no link.\<close>

theorem unsaved_rectangle_counterexample:
  "is_shape sample_unsaved_square \<and>
   export_pdf_annotations (sample_env (Inr (readable_doc [[sample_unsaved_square]])))
     (u ''/docs/paper.pdf'') None (u ''images'') 144 =
   (Inr (u ''/docs/paper.annotations.md''),
    [TextFile (u ''/docs/paper.annotations.md'')
       (u ''# Annotations for paper'' @ [10, 10] @ u ''## Rectangles / Figures'' @ [10, 10] @
        u ''### '' @ title_of ''blue'' @ [10])])"
proof -
  let ?st = "empty_collected\<lparr>rect_groups := dd_append (rect_groups empty_collected) ''blue''
        \<lparr>image_path = None, rect_text = Some (u ''Figure 1'')\<rparr>\<rparr>"
  have shape: "is_shape sample_unsaved_square"
    by (simp add: is_shape_def sample_unsaved_square_def sample_square_def sample_annot_def
        annot_codes)
  have "scan_pages (sample_env (Inr (readable_doc [[sample_unsaved_square]])))
          (u ''/docs/paper.pdf'') (u ''/docs/images'') 144 0
          (map (\<lambda>page. Returns (chain_of page)) [[sample_unsaved_square]]) empty_collected =
        Inr ?st"
    by (simp add: sample_unsaved_step)
  from sample_env_export [OF this] shape show ?thesis
    by (simp add: sample_unsaved_markdown)
qed

subsection \<open>Determinism\<close>

text \<open>What an annotation adds to the report is a function of what the run observes of it.\<close>

lemma observe_marked:
  "seen_marked (observe env pdf_path image_dir min_dpi i (n, annot)) = marked env annot"
  by (auto simp: seen_marked_def observe_def marked_def split: sum.splits attempt.splits)

lemma observe_noted:
  "seen_noted (observe env pdf_path image_dir min_dpi i (n, annot)) = noted annot"
  by (auto simp: seen_noted_def observe_def noted_def split: attempt.splits)

lemma observe_image:
  "seen_image (observe env pdf_path image_dir min_dpi i (n, annot)) =
     links_of (shaped env pdf_path image_dir i (n, annot))"
  by (auto simp: seen_image_def observe_def shaped_def links_of_def save_rect_image_def
      image_file_def split: sum.splits attempt.splits)

lemma links_of_append [simp]: "links_of (xs @ ys) = links_of xs @ links_of ys"
  by (simp add: links_of_def)

lemma links_of_Nil [simp]: "links_of [] = []"
  by (simp add: links_of_def)

lemma page_observed:
  "concat (map seen_marked (map (observe env pdf_path image_dir min_dpi i) (numbered n page))) =
     concat (map (marked env) page)"
  "concat (map seen_noted (map (observe env pdf_path image_dir min_dpi i) (numbered n page))) =
     concat (map noted page)"
  "concat (map seen_image (map (observe env pdf_path image_dir min_dpi i) (numbered n page))) =
     links_of (page_shapes env pdf_path image_dir i n page)"
proof -
  show "concat (map seen_marked (map (observe env pdf_path image_dir min_dpi i) (numbered n page))) =
     concat (map (marked env) page)"
    by (induction page arbitrary: n) (simp_all add: Let_def observe_marked)
  show "concat (map seen_noted (map (observe env pdf_path image_dir min_dpi i) (numbered n page))) =
     concat (map noted page)"
    by (induction page arbitrary: n) (simp_all add: Let_def observe_noted)
  show "concat (map seen_image (map (observe env pdf_path image_dir min_dpi i) (numbered n page))) =
     links_of (page_shapes env pdf_path image_dir i n page)"
    by (induction page arbitrary: n) (simp_all add: Let_def observe_image page_shapes_def)
qed

lemma pages_observed:
  "concat (map seen_marked (concat (map (\<lambda>(page_index, page).
       map (observe env pdf_path image_dir min_dpi page_index) (numbered 0 page))
     (enumerate i pages)))) = concat (map (marked env) (concat pages))"
  "concat (map seen_noted (concat (map (\<lambda>(page_index, page).
       map (observe env pdf_path image_dir min_dpi page_index) (numbered 0 page))
     (enumerate i pages)))) = concat (map noted (concat pages))"
  "concat (map seen_image (concat (map (\<lambda>(page_index, page).
       map (observe env pdf_path image_dir min_dpi page_index) (numbered 0 page))
     (enumerate i pages)))) = links_of (doc_shapes env pdf_path image_dir i pages)"
proof -
  show "concat (map seen_marked (concat (map (\<lambda>(page_index, page).
       map (observe env pdf_path image_dir min_dpi page_index) (numbered 0 page))
     (enumerate i pages)))) = concat (map (marked env) (concat pages))"
    by (induction pages arbitrary: i) (simp_all add: page_observed del: map_map)
  show "concat (map seen_noted (concat (map (\<lambda>(page_index, page).
       map (observe env pdf_path image_dir min_dpi page_index) (numbered 0 page))
     (enumerate i pages)))) = concat (map noted (concat pages))"
    by (induction pages arbitrary: i) (simp_all add: page_observed del: map_map)
  show "concat (map seen_image (concat (map (\<lambda>(page_index, page).
       map (observe env pdf_path image_dir min_dpi page_index) (numbered 0 page))
     (enumerate i pages)))) = links_of (doc_shapes env pdf_path image_dir i pages)"
  proof (induction pages arbitrary: i)
    case Nil
    then show ?case by (simp add: doc_shapes_def)
  next
    case (Cons page pages)
    have "doc_shapes env pdf_path image_dir i (page # pages) =
          page_shapes env pdf_path image_dir i 0 page @
          doc_shapes env pdf_path image_dir (Suc i) pages"
      by (simp add: doc_shapes_def)
    with Cons.IH [of "Suc i"] show ?case by (simp add: page_observed del: map_map)
  qed
qed

text \<open>The groups of a run, from its observations.\<close>

lemma observed_groups:
  "texts_of env k pages =
     pick k (concat (map seen_marked (observations env pdf_path image_dir min_dpi pages)))"
  "concat (map noted (concat pages)) =
     concat (map seen_noted (observations env pdf_path image_dir min_dpi pages))"
  "links_of (doc_shapes env pdf_path image_dir 0 pages) =
     concat (map seen_image (observations env pdf_path image_dir min_dpi pages))"
  by (simp_all add: observations_def pages_observed texts_of_def)

text \<open>The Rectangles / Figures section and the saved images depend on the entries through
  their colour keys and image paths only.\<close>

lemma pick_links_of: "pick k (links_of es) = map image_path (pick k es)"
  by (induction es) (auto simp: pick_def links_of_def)

lemma rects_section_links:
  assumes "links_of es = links_of es'"
  shows "rects_section (\<lambda>k. pick k es) = rects_section (\<lambda>k. pick k es')"
proof -
  let ?link = "\<lambda>p. rect_item_lines \<lparr>image_path = p, rect_text = None\<rparr>"
  have item: "rect_item_lines e = ?link (image_path e)" for e
    by (simp add: rect_item_lines_def)
  have body: "concat (map rect_item_lines (pick k xs)) = concat (map ?link (pick k (links_of xs)))"
    for k xs
  proof -
    have "map rect_item_lines (pick k xs) = map ?link (map image_path (pick k xs))"
      using item by (simp add: comp_def)
    then show ?thesis by (simp only: pick_links_of)
  qed
  have present: "(pick k xs \<noteq> []) = (pick k (links_of xs) \<noteq> [])" for k xs
    by (simp add: pick_links_of)
  show ?thesis
    unfolding rects_section_def body present assms by (rule refl)
qed

lemma saved_of_links:
  assumes "links_of es = links_of es'"
  shows "saved_of es = saved_of es'"
proof -
  have "saved_of xs = concat (map (\<lambda>(c, p). case p of None \<Rightarrow> [] | Some f \<Rightarrow> [f]) (links_of xs))"
    for xs
    by (induction xs) (auto simp: saved_of_def links_of_def)
  with assms show ?thesis by simp
qed

text \<open>
  C2 (as amended). Two runs that return, whatever their machines, paths, resolutions and
  documents, whose PDF files have the same title (the file name without directory and
  extension) and that observe the same sequence of annotations (same subtypes, colours,
  extracted texts, note contents and image-save results, in the same order), write the same
  images and the same Markdown string.
\<close>

theorem markdown_deterministic:
  assumes "export_pdf_annotations env pdf_path out_md img_dir min_dpi = (Inr out, written)"
    and "export_pdf_annotations env' pdf_path' out_md' img_dir' min_dpi' = (Inr out', written')"
    and "fitz_open env pdf_path = Inr doc" and "fitz_open env' pdf_path' = Inr doc'"
    and "splitext_root env (basename env pdf_path) = splitext_root env' (basename env' pdf_path')"
    and "observations env pdf_path (images_dir env pdf_path out_md img_dir) min_dpi
           (annots_of doc) =
         observations env' pdf_path' (images_dir env' pdf_path' out_md' img_dir') min_dpi'
           (annots_of doc')"
  shows "\<exists>images markdown.
           written = map PngFile images @ [TextFile out markdown] \<and>
           written' = map PngFile images @ [TextFile out' markdown]"
proof -
  let ?dir = "images_dir env pdf_path out_md img_dir"
  let ?dir' = "images_dir env' pdf_path' out_md' img_dir'"
  have texts: "texts_of env k (annots_of doc) = texts_of env' k (annots_of doc')" for k
    unfolding observed_groups(1) [of env k "annots_of doc" pdf_path ?dir min_dpi]
      observed_groups(1) [of env' k "annots_of doc'" pdf_path' ?dir' min_dpi'] assms(6)
    by (rule refl)
  have blocks: "concat (map noted (concat (annots_of doc))) =
               concat (map noted (concat (annots_of doc')))"
    unfolding observed_groups(2) [of "annots_of doc" env pdf_path ?dir min_dpi]
      observed_groups(2) [of "annots_of doc'" env' pdf_path' ?dir' min_dpi'] assms(6)
    by (rule refl)
  have links: "links_of (doc_shapes env pdf_path ?dir 0 (annots_of doc)) =
               links_of (doc_shapes env' pdf_path' ?dir' 0 (annots_of doc'))"
    unfolding observed_groups(3) [of env pdf_path ?dir "annots_of doc" min_dpi]
      observed_groups(3) [of env' pdf_path' ?dir' "annots_of doc'" min_dpi'] assms(6)
    by (rule refl)
  note r = export_report(2) [OF assms(1,3)]
  note r' = export_report(2) [OF assms(2,4),
      folded texts blocks rects_section_links [OF links] saved_of_links [OF links] assms(5)]
  from r r' show ?thesis by blast
qed

lemma sample_alt_facts:
  "a_type sample_highlight_alt = Returns 8"
  "rgb_from_annot sample_highlight_alt = Inr (230, 0, 0)"
  "extract_highlight_text sample_highlight_alt = Returns (u ''key  idea'')"
  "a_content sample_highlight_alt = a_content sample_highlight"
  "a_rect_text sample_highlight_alt = a_rect_text sample_highlight"
  "a_colors sample_highlight_alt \<noteq> a_colors sample_highlight"
  by (simp_all add: sample_highlight_alt_def sample_highlight_def sample_annot_def
      rgb_from_annot_def extract_highlight_text_def string_defs)

lemma sample_alt_step:
  "annot_step (sample_env x) pdf_path image_dir min_dpi page_index sample_highlight_alt (st, n) =
   Inr (st\<lparr>highlight_groups := dd_append (highlight_groups st) ''red'' (u ''keyidea'')\<rparr>, n)"
  by (simp add: annot_step_def subtype_of_def sample_alt_facts sample_normalized sample_nonempty
      sample_colors annot_codes)

lemma sample_alt_export:
  "export_pdf_annotations (sample_env (Inr (readable_doc sample_doc_alt))) (u ''/docs/paper.pdf'')
     None (u ''images'') 300 =
   (Inr (u ''/docs/paper.annotations.md''),
    [PngFile (u ''/docs/images/paper_p2_rect1.png''),
     TextFile (u ''/docs/paper.annotations.md'') (build_markdown (u ''paper'') sample_collected)])"
proof -
  have "scan_pages (sample_env (Inr (readable_doc sample_doc_alt))) (u ''/docs/paper.pdf'')
     (u ''/docs/images'') 300 0 (map (\<lambda>page. Returns (chain_of page)) sample_doc_alt)
     empty_collected = Inr sample_collected"
    by (simp add: sample_doc_alt_def sample_steps sample_alt_step empty_collected_def
        sample_collected_def dd_append_def)
  from sample_env_export [OF this] show ?thesis
    by (simp add: sample_collected_def)
qed

text \<open>The observations do not depend on what the library opens, nor on the resolution;
  the two forms of the red highlight are observed alike.\<close>

lemma observe_sample_env:
  "observe (sample_env x) pdf_path image_dir min_dpi i =
   observe (sample_env y) pdf_path image_dir min_dpi' i"
proof
  fix na
  have sel: "strikeout_name (sample_env x) = strikeout_name (sample_env y)"
    "splitext_root (sample_env x) = splitext_root (sample_env y)"
    "basename (sample_env x) = basename (sample_env y)"
    "path_join (sample_env x) = path_join (sample_env y)"
    by (simp_all add: sample_env_def)
  show "observe (sample_env x) pdf_path image_dir min_dpi i na =
        observe (sample_env y) pdf_path image_dir min_dpi' i na"
    unfolding observe_def is_markup_def save_rect_image_def sel by (rule refl)
qed

lemma observations_sample_env:
  "observations (sample_env x) pdf_path image_dir min_dpi pages =
   observations (sample_env y) pdf_path image_dir min_dpi' pages"
  unfolding observations_def
    observe_sample_env [of x pdf_path image_dir min_dpi _ y min_dpi']
  by (rule refl)

lemma sample_alt_observed:
  "observe env pdf_path image_dir min_dpi i (n, sample_highlight_alt) =
   observe env pdf_path image_dir min_dpi i (n, sample_highlight)"
  by (simp add: observe_def subtype_of_def is_markup_def is_shape_def sample_alt_facts
      sample_types sample_rgb sample_extracted annot_codes)

lemma sample_not_shapes:
  "\<not> is_shape sample_highlight" "\<not> is_shape sample_highlight_alt" "\<not> is_shape sample_note"
  "\<not> is_shape sample_plain"
  by (simp_all add: is_shape_def sample_types sample_alt_facts annot_codes)

lemma sample_alt_observations:
  "observations env pdf_path image_dir min_dpi sample_doc_alt =
   observations env pdf_path image_dir min_dpi sample_doc"
  by (simp add: observations_def sample_doc_alt_def sample_doc_def sample_not_shapes
      sample_alt_observed)

theorem markdown_deterministic_witness:
  "a_colors sample_highlight_alt \<noteq> a_colors sample_highlight \<and>
   export_pdf_annotations (sample_env (Inr (readable_doc sample_doc))) (u ''/docs/paper.pdf'')
     None (u ''images'') 144 =
   (Inr (u ''/docs/paper.annotations.md''),
    [PngFile (u ''/docs/images/paper_p2_rect1.png''),
     TextFile (u ''/docs/paper.annotations.md'') (build_markdown (u ''paper'') sample_collected)]) \<and>
   export_pdf_annotations (sample_env (Inr (readable_doc sample_doc_alt))) (u ''/docs/paper.pdf'')
     None (u ''images'') 300 =
   (Inr (u ''/docs/paper.annotations.md''),
    [PngFile (u ''/docs/images/paper_p2_rect1.png''),
     TextFile (u ''/docs/paper.annotations.md'') (build_markdown (u ''paper'') sample_collected)]) \<and>
   fitz_open (sample_env (Inr (readable_doc sample_doc))) (u ''/docs/paper.pdf'') =
     Inr (readable_doc sample_doc) \<and>
   fitz_open (sample_env (Inr (readable_doc sample_doc_alt))) (u ''/docs/paper.pdf'') =
     Inr (readable_doc sample_doc_alt) \<and>
   observations (sample_env (Inr (readable_doc sample_doc))) (u ''/docs/paper.pdf'')
     (u ''/docs/images'') 144 (annots_of (readable_doc sample_doc)) =
   observations (sample_env (Inr (readable_doc sample_doc_alt))) (u ''/docs/paper.pdf'')
     (u ''/docs/images'') 300 (annots_of (readable_doc sample_doc_alt)) \<and>
   (\<exists>images markdown.
      [PngFile (u ''/docs/images/paper_p2_rect1.png''),
       TextFile (u ''/docs/paper.annotations.md'') (build_markdown (u ''paper'') sample_collected)] =
      map PngFile images @ [TextFile (u ''/docs/paper.annotations.md'') markdown])"
proof -
  let ?env = "sample_env (Inr (readable_doc sample_doc))"
  let ?env' = "sample_env (Inr (readable_doc sample_doc_alt))"
  have opened: "fitz_open ?env (u ''/docs/paper.pdf'') = Inr (readable_doc sample_doc)"
    "fitz_open ?env' (u ''/docs/paper.pdf'') = Inr (readable_doc sample_doc_alt)"
    by (simp_all add: sample_env_files)
  have title: "splitext_root ?env (basename ?env (u ''/docs/paper.pdf'')) =
     splitext_root ?env' (basename ?env' (u ''/docs/paper.pdf''))"
    by (simp only: sample_paths)
  have obs: "observations ?env (u ''/docs/paper.pdf'') (u ''/docs/images'') 144
       (annots_of (readable_doc sample_doc)) =
     observations ?env' (u ''/docs/paper.pdf'') (u ''/docs/images'') 300
       (annots_of (readable_doc sample_doc_alt))"
    by (simp only: annots_of_readable_doc sample_alt_observations)
      (rule observations_sample_env)
  have obs': "observations ?env (u ''/docs/paper.pdf'')
       (images_dir ?env (u ''/docs/paper.pdf'') None (u ''images'')) 144
       (annots_of (readable_doc sample_doc)) =
     observations ?env' (u ''/docs/paper.pdf'')
       (images_dir ?env' (u ''/docs/paper.pdf'') None (u ''images'')) 300
       (annots_of (readable_doc sample_doc_alt))"
    using obs by (simp only: sample_paths)
  from markdown_deterministic [OF sample_export sample_alt_export opened title obs']
  have "\<exists>images markdown.
      [PngFile (u ''/docs/images/paper_p2_rect1.png''),
       TextFile (u ''/docs/paper.annotations.md'') (build_markdown (u ''paper'') sample_collected)] =
      map PngFile images @ [TextFile (u ''/docs/paper.annotations.md'') markdown]"
    by blast
  with sample_alt_facts(6) sample_export sample_alt_export opened obs show ?thesis
    by (intro conjI)
qed

text \<open>The title is part of the Markdown and is not among the observations: the same
  document, with one red highlight, exported from two files observes the same sequence of
  annotations and gives two different Markdown strings.\<close>

lemma sample_red_markdown:
  "build_markdown (u ''paper'')
     (empty_collected\<lparr>highlight_groups :=
        dd_append (highlight_groups empty_collected) ''red'' (u ''keyidea'')\<rparr>) =
   u ''# Annotations for paper'' @ [10, 10] @ u ''## Highlights'' @ [10, 10] @
   u ''### '' @ title_of ''red'' @ [10, 10] @ u ''- > keyidea'' @ [10]"
  "build_markdown (u ''draft'')
     (empty_collected\<lparr>highlight_groups :=
        dd_append (highlight_groups empty_collected) ''red'' (u ''keyidea'')\<rparr>) =
   u ''# Annotations for draft'' @ [10, 10] @ u ''## Highlights'' @ [10, 10] @
   u ''### '' @ title_of ''red'' @ [10, 10] @ u ''- > keyidea'' @ [10]"
  by (simp_all add: build_markdown_def build_lines_def empty_collected_def order_def
      dd_append_def get_list_def rstrip_def isspace_def u_def title_of_def COLOR_TITLES_def)

lemma sample_draft_paths:
  "md_path (sample_env x) (u ''/docs/draft.pdf'') None = u ''/docs/draft.annotations.md''"
  "images_dir (sample_env x) (u ''/docs/draft.pdf'') None (u ''images'') = u ''/docs/images''"
  "splitext_root (sample_env x) (basename (sample_env x) (u ''/docs/draft.pdf'')) = u ''draft''"
  by (simp_all add: md_path_def images_dir_def sample_env_def posix_defs u_def)

theorem same_annotations_other_title_counterexample:
  "observations (sample_env (Inr (readable_doc [[sample_highlight]]))) (u ''/docs/paper.pdf'')
     (u ''/docs/images'') 144 (annots_of (readable_doc [[sample_highlight]])) =
   observations (sample_env (Inr (readable_doc [[sample_highlight]]))) (u ''/docs/draft.pdf'')
     (u ''/docs/images'') 144 (annots_of (readable_doc [[sample_highlight]])) \<and>
   export_pdf_annotations (sample_env (Inr (readable_doc [[sample_highlight]])))
     (u ''/docs/paper.pdf'') None (u ''images'') 144 =
   (Inr (u ''/docs/paper.annotations.md''),
    [TextFile (u ''/docs/paper.annotations.md'')
       (u ''# Annotations for paper'' @ [10, 10] @ u ''## Highlights'' @ [10, 10] @
        u ''### '' @ title_of ''red'' @ [10, 10] @ u ''- > keyidea'' @ [10])]) \<and>
   export_pdf_annotations (sample_env (Inr (readable_doc [[sample_highlight]])))
     (u ''/docs/draft.pdf'') None (u ''images'') 144 =
   (Inr (u ''/docs/draft.annotations.md''),
    [TextFile (u ''/docs/draft.annotations.md'')
       (u ''# Annotations for draft'' @ [10, 10] @ u ''## Highlights'' @ [10, 10] @
        u ''### '' @ title_of ''red'' @ [10, 10] @ u ''- > keyidea'' @ [10])]) \<and>
   u ''# Annotations for paper'' @ [10, 10] @ u ''## Highlights'' @ [10, 10] @
     u ''### '' @ title_of ''red'' @ [10, 10] @ u ''- > keyidea'' @ [10] \<noteq>
   u ''# Annotations for draft'' @ [10, 10] @ u ''## Highlights'' @ [10, 10] @
     u ''### '' @ title_of ''red'' @ [10, 10] @ u ''- > keyidea'' @ [10]"
proof -
  let ?env = "sample_env (Inr (readable_doc [[sample_highlight]]))"
  let ?st = "empty_collected\<lparr>highlight_groups :=
        dd_append (highlight_groups empty_collected) ''red'' (u ''keyidea'')\<rparr>"
  have obs: "observations ?env (u ''/docs/paper.pdf'') (u ''/docs/images'') 144
       (annots_of (readable_doc [[sample_highlight]])) =
     observations ?env (u ''/docs/draft.pdf'') (u ''/docs/images'') 144
       (annots_of (readable_doc [[sample_highlight]]))"
    by (simp add: observations_def observe_def sample_not_shapes)
  have scan: "scan_pages ?env pdf_path (u ''/docs/images'') 144 0
      (map (\<lambda>page. Returns (chain_of page)) [[sample_highlight]]) empty_collected = Inr ?st"
    for pdf_path
    by (simp add: sample_steps)
  have saved: "saved_images ?st = []"
    by (simp add: empty_collected_def)
  from sample_env_export [OF scan]
  have paper: "export_pdf_annotations ?env (u ''/docs/paper.pdf'') None (u ''images'') 144 =
     (Inr (u ''/docs/paper.annotations.md''),
      [TextFile (u ''/docs/paper.annotations.md'')
         (u ''# Annotations for paper'' @ [10, 10] @ u ''## Highlights'' @ [10, 10] @
          u ''### '' @ title_of ''red'' @ [10, 10] @ u ''- > keyidea'' @ [10])])"
    by (simp only: sample_red_markdown saved list.map append_Nil)
  have "export_pdf_annotations ?env (u ''/docs/draft.pdf'') None (u ''images'') 144 =
     (Inr (md_path ?env (u ''/docs/draft.pdf'') None),
      map PngFile (saved_images ?st) @
      [TextFile (md_path ?env (u ''/docs/draft.pdf'') None)
         (build_markdown (splitext_root ?env (basename ?env (u ''/docs/draft.pdf''))) ?st)])"
    using scan
    by (intro export_returns [where doc = "readable_doc [[sample_highlight]]"
          and pages = "map (\<lambda>page. Returns (chain_of page)) [[sample_highlight]]"])
      (simp_all add: sample_env_files pages_of_readable_doc sample_draft_paths)
  then have draft: "export_pdf_annotations ?env (u ''/docs/draft.pdf'') None (u ''images'') 144 =
     (Inr (u ''/docs/draft.annotations.md''),
      [TextFile (u ''/docs/draft.annotations.md'')
         (u ''# Annotations for draft'' @ [10, 10] @ u ''## Highlights'' @ [10, 10] @
          u ''### '' @ title_of ''red'' @ [10, 10] @ u ''- > keyidea'' @ [10])])"
    by (simp only: sample_draft_paths sample_red_markdown saved list.map append_Nil)
  have differ: "u ''# Annotations for paper'' @ [10, 10] @ u ''## Highlights'' @ [10, 10] @
     u ''### '' @ title_of ''red'' @ [10, 10] @ u ''- > keyidea'' @ [10] \<noteq>
   u ''# Annotations for draft'' @ [10, 10] @ u ''## Highlights'' @ [10, 10] @
     u ''### '' @ title_of ''red'' @ [10, 10] @ u ''- > keyidea'' @ [10]"
    by (simp add: u_def)
  from obs paper draft differ show ?thesis by (intro conjI)
qed

end
